theory Spec2Isabelle
  imports Complex_Main
begin

section \<open>Overlapped transform and combine pipelines of left and right videos\<close>

text \<open>
  The program transforms every left and every right input video once (a pool of
  \<open>transform_video\<close> tasks per side) and, while those tasks are still running, a driver loop
  repeatedly joins every pair of intermediate videos that exists so far (\<open>join_videos\<close>).

  The embedding follows \<^verbatim>\<open>main.py\<close>. What the program does beyond computing values
  is made explicit:
  \<^item> a task is the ordered list of the \<open>event\<close>s it performs (prints, the \<open>ffmpeg\<close> call,
    the pause, the lock, the insertion into a registry);
  \<^item> the result of \<^verbatim>\<open>subprocess.run\<close>, the order in which the transform workers finish
    and the readings of \<^verbatim>\<open>time.time()\<close> come from an environment \<open>env\<close>;
  \<^item> the three global sets are the fields of a \<open>world\<close>, passed from step to step;
  \<^item> the \<^verbatim>\<open>while\<close> loop may run forever, so it returns an \<open>option\<close>.
\<close>

subsection \<open>Constants\<close>

definition MAX_CONCURRENT_DEC_PROCESSES :: nat where
  "MAX_CONCURRENT_DEC_PROCESSES = 30"

definition MAX_CONCURRENT_ENC_PROCESSES :: nat where
  "MAX_CONCURRENT_ENC_PROCESSES = 30"

definition MAX_ENC_TIME :: real where
  "MAX_ENC_TIME = 10800"

definition INTER_DEC_TIME :: real where
  "INTER_DEC_TIME = 1 / 2"

definition INTER_ENC_TIME :: real where
  "INTER_ENC_TIME = 1 / 2"

definition output_left_dir :: string where
  "output_left_dir = ''transformed_left_videos''"

definition output_right_dir :: string where
  "output_right_dir = ''transformed_right_videos''"

definition final_output_dir :: string where
  "final_output_dir = ''video_output''"

subsection \<open>Paths\<close>

text \<open>\<^verbatim>\<open>os.path.basename\<close>: what follows the last slash.\<close>

definition basename :: "string \<Rightarrow> string" where
  "basename p = rev (takeWhile (\<lambda>c. c \<noteq> CHR ''/'') (rev p))"

text \<open>\<^verbatim>\<open>os.path.join\<close> of two components (POSIX).\<close>

definition path_join :: "string \<Rightarrow> string \<Rightarrow> string" where
  "path_join a b =
     (if b \<noteq> [] \<and> hd b = CHR ''/'' then b
      else if a = [] \<or> last a = CHR ''/'' then a @ b
      else a @ ''/'' @ b)"

text \<open>The slice \<^verbatim>\<open>s[:-4]\<close>: all but the last four characters, empty when there are at most four.\<close>

definition drop_last4 :: "string \<Rightarrow> string" where
  "drop_last4 s = take (length s - 4) s"

subsection \<open>External processes, locks and events\<close>

datatype lock = lock_transformed_left | lock_transformed_right

text \<open>
  A finished process has a return code and captured error output; \<open>stderr_decode\<close> is the
  result of \<^verbatim>\<open>result.stderr.decode()\<close>, which raises on bytes that are not UTF-8
  (\<open>Inl\<close> the exception's text). \<^verbatim>\<open>subprocess.run\<close> itself raises when the process
  cannot be started (\<open>Inl\<close> the exception's text).
\<close>

record completed_process =
  returncode :: int
  stderr_decode :: "string + string"

type_synonym run_result = "string + completed_process"

datatype event =
    Print string
  | PrintCombinations "(string \<times> string) set"
  | Run "string list"
  | Sleep real
  | Acquire lock
  | Release lock
  | AddLeft string
  | AddRight string
  | Submit string string

subsection \<open>The transform task\<close>

definition transform_output_file :: "string \<Rightarrow> string \<Rightarrow> string" where
  "transform_output_file input_file sd =
     path_join (if sd = ''left'' then output_left_dir else output_right_dir) (basename input_file)"

definition transform_cmd :: "string \<Rightarrow> string \<Rightarrow> string list" where
  "transform_cmd input_file sd =
     [''ffmpeg'', ''-i'', input_file,
      ''-vf'', (if sd = ''left'' then ''crop=iw/2:ih:0:0'' else ''crop=iw/2:ih:iw/2:0''),
      ''-c:v'', ''png'', ''-pix_fmt'', ''rgb24'', ''-y'',
      transform_output_file input_file sd]"

text \<open>
  The body of the \<^verbatim>\<open>try\<close> block: the events performed, and the text of the exception
  that ends the block early, if one does.
\<close>

definition transform_video_try ::
  "(string list \<Rightarrow> run_result) \<Rightarrow> string \<Rightarrow> lock \<Rightarrow> string \<Rightarrow> event list \<times> string option" where
  "transform_video_try run input_file lk sd =
     (let output_file = transform_output_file input_file sd;
          cmd = transform_cmd input_file sd;
          started = [Print (''Starting video transformation '' @ input_file), Run cmd]
      in case run cmd of
           Inl e \<Rightarrow> (started, Some e)
         | Inr result \<Rightarrow>
             if returncode result \<noteq> 0 then
               (case stderr_decode result of
                  Inl e \<Rightarrow> (started @ [Sleep INTER_DEC_TIME], Some e)
                | Inr err \<Rightarrow>
                    (started @ [Sleep INTER_DEC_TIME,
                       Print (''Error video transformation '' @ input_file @ '': '' @ err)], None))
             else
               (started @ [Sleep INTER_DEC_TIME,
                  Print (''Finished video transformation '' @ input_file),
                  Acquire lk,
                  (if sd = ''left'' then AddLeft output_file else AddRight output_file),
                  Release lk], None))"

text \<open>
  The whole task, with its \<^verbatim>\<open>except Exception\<close> handler. The second component is the
  exception that leaves the function.
\<close>

definition transform_video ::
  "(string list \<Rightarrow> run_result) \<Rightarrow> string \<Rightarrow> lock \<Rightarrow> string \<Rightarrow> event list \<times> string option" where
  "transform_video run input_file lk sd =
     (case transform_video_try run input_file lk sd of
        (evs, None) \<Rightarrow> (evs, None)
      | (evs, Some e) \<Rightarrow>
          (evs @ [Print (''Exception video transformation '' @ input_file @ '': '' @ e)], None))"

subsection \<open>The combine task\<close>

definition join_output_basename :: "string \<Rightarrow> string \<Rightarrow> string" where
  "join_output_basename input_file_left input_file_right =
     drop_last4 (basename input_file_left) @ ''_'' @ basename input_file_right"

definition join_output_file :: "string \<Rightarrow> string \<Rightarrow> string" where
  "join_output_file input_file_left input_file_right =
     path_join final_output_dir (join_output_basename input_file_left input_file_right)"

definition join_cmd :: "string \<Rightarrow> string \<Rightarrow> string list" where
  "join_cmd input_file_left input_file_right =
     [''ffmpeg'', ''-i'', input_file_left, ''-i'', input_file_right,
      ''-filter_complex'', ''hstack=inputs=2'', ''-y'',
      join_output_file input_file_left input_file_right]"

definition join_videos_try ::
  "(string list \<Rightarrow> run_result) \<Rightarrow> string \<Rightarrow> string \<Rightarrow> event list \<times> string option" where
  "join_videos_try run input_file_left input_file_right =
     (let output_file = join_output_file input_file_left input_file_right;
          cmd = join_cmd input_file_left input_file_right;
          started = [Print (''Writing to '' @ output_file), Run cmd]
      in case run cmd of
           Inl e \<Rightarrow> (started, Some e)
         | Inr result \<Rightarrow>
             if returncode result \<noteq> 0 then
               (case stderr_decode result of
                  Inl e \<Rightarrow> (started @ [Sleep INTER_ENC_TIME], Some e)
                | Inr err \<Rightarrow>
                    (started @ [Sleep INTER_ENC_TIME,
                       Print (''Error writing to '' @ output_file @ '': '' @ err)], None))
             else
               (started @ [Sleep INTER_ENC_TIME,
                  Print (''Finished writing to '' @ output_file)], None))"

definition join_videos ::
  "(string list \<Rightarrow> run_result) \<Rightarrow> string \<Rightarrow> string \<Rightarrow> event list \<times> string option" where
  "join_videos run input_file_left input_file_right =
     (case join_videos_try run input_file_left input_file_right of
        (evs, None) \<Rightarrow> (evs, None)
      | (evs, Some e) \<Rightarrow>
          (evs @ [Print (''Exception writing to ''
                     @ join_output_file input_file_left input_file_right @ '': '' @ e)], None))"

subsection \<open>The shared state\<close>

text \<open>
  The three module-level sets, and what has been observed so far: each event with the
  number of the driver iteration during which it happened. Events of concurrent tasks have
  no order among themselves, so the observations form a set.
\<close>

record world =
  transformed_left :: "string set"
  transformed_right :: "string set"
  all_video_combinations :: "(string \<times> string) set"
  trace :: "(nat \<times> event) set"

definition init_world :: world where
  "init_world = \<lparr>transformed_left = {}, transformed_right = {},
                 all_video_combinations = {}, trace = {}\<rparr>"

fun perform :: "event \<Rightarrow> world \<Rightarrow> world" where
  "perform (AddLeft f) w = w\<lparr>transformed_left := insert f (transformed_left w)\<rparr>"
| "perform (AddRight f) w = w\<lparr>transformed_right := insert f (transformed_right w)\<rparr>"
| "perform _ w = w"

definition observe :: "nat \<Rightarrow> event list \<Rightarrow> world \<Rightarrow> world" where
  "observe k evs w = (fold perform evs w)\<lparr>trace := trace w \<union> Pair k ` set evs\<rparr>"

subsection \<open>The environment of a run\<close>

text \<open>
  A future of one of the two transform pools, named by the input file it was submitted
  with: \<^verbatim>\<open>executor.submit(transform_video, vf, lock_transformed_left)\<close> and
  \<^verbatim>\<open>executor.submit(transform_video, vf, lock_transformed_right, "right")\<close>.
\<close>

datatype future = FutureLeft string | FutureRight string

text \<open>
  \<open>left_videos\<close> and \<open>right_videos\<close> are the two results of \<^verbatim>\<open>glob.glob\<close>;
  \<open>subprocess_run k cmd\<close> is what \<^verbatim>\<open>subprocess.run(cmd)\<close> gives during iteration \<open>k\<close>
  of the driver; \<open>finished ! k\<close> lists the transform futures that complete after the
  snapshot of iteration \<open>k - 1\<close> and before the snapshot of iteration \<open>k\<close>;
  \<open>time_time k\<close> is the reading of \<^verbatim>\<open>time.time()\<close> in the \<open>k\<close>-th evaluation of the
  loop condition. Clock readings are taken as reals.
\<close>

record env =
  left_videos :: "string list"
  right_videos :: "string list"
  subprocess_run :: "nat \<Rightarrow> string list \<Rightarrow> run_result"
  finished :: "future list list"
  start_enc_time :: real
  time_time :: "nat \<Rightarrow> real"

definition futures_left :: "env \<Rightarrow> future list" where
  "futures_left e = map FutureLeft (left_videos e)"

definition futures_right :: "env \<Rightarrow> future list" where
  "futures_right e = map FutureRight (right_videos e)"

fun run_future :: "env \<Rightarrow> nat \<Rightarrow> future \<Rightarrow> event list" where
  "run_future e k (FutureLeft vf) =
     fst (transform_video (subprocess_run e k) vf lock_transformed_left ''left'')"
| "run_future e k (FutureRight vf) =
     fst (transform_video (subprocess_run e k) vf lock_transformed_right ''right'')"

definition arrivals :: "env \<Rightarrow> nat \<Rightarrow> future list" where
  "arrivals e k = (if k < length (finished e) then finished e ! k else [])"

definition transforms_finishing :: "env \<Rightarrow> nat \<Rightarrow> world \<Rightarrow> world" where
  "transforms_finishing e k w = fold (\<lambda>fut. observe k (run_future e k fut)) (arrivals e k) w"

subsection \<open>The driver loop\<close>

definition total_outputs_number :: "env \<Rightarrow> nat" where
  "total_outputs_number e = length (left_videos e) * length (right_videos e)"

definition loop_condition :: "env \<Rightarrow> nat \<Rightarrow> world \<Rightarrow> bool" where
  "loop_condition e k w \<longleftrightarrow>
     card (all_video_combinations w) < total_outputs_number e
     \<or> time_time e k - start_enc_time e > MAX_ENC_TIME"

definition join_batch :: "env \<Rightarrow> nat \<Rightarrow> (string \<times> string) set \<Rightarrow> event set" where
  "join_batch e k prepared_combinations =
     (\<Union>vt \<in> prepared_combinations.
        set (Submit (fst vt) (snd vt) # fst (join_videos (subprocess_run e k) (fst vt) (snd vt))))"

definition loop_body :: "env \<Rightarrow> nat \<Rightarrow> world \<Rightarrow> world" where
  "loop_body e k w =
     (let prepared_combinations = transformed_left w \<times> transformed_right w;
          w1 = observe k [Acquire lock_transformed_left, Acquire lock_transformed_right,
                          PrintCombinations prepared_combinations,
                          Release lock_transformed_right, Release lock_transformed_left] w;
          w2 = w1\<lparr>trace := trace w1 \<union> Pair k ` join_batch e k prepared_combinations\<rparr>
      in w2\<lparr>all_video_combinations := all_video_combinations w2 \<union> prepared_combinations\<rparr>)"

partial_function (option) driver_loop :: "env \<Rightarrow> nat \<Rightarrow> world \<Rightarrow> world option" where
  "driver_loop e k w =
     (if loop_condition e k w
      then driver_loop e (Suc k) (loop_body e k (transforms_finishing e k w))
      else Some w)"

definition main :: "env \<Rightarrow> world option" where
  "main e = driver_loop e 0 init_world"

text \<open>The world at the \<open>n\<close>-th evaluation of the loop condition, if the loop gets there.\<close>

primrec world_at :: "env \<Rightarrow> nat \<Rightarrow> world" where
  "world_at e 0 = init_world"
| "world_at e (Suc n) = loop_body e n (transforms_finishing e n (world_at e n))"

subsection \<open>Vocabulary for stating properties\<close>

text \<open>The process ran and returned exit status 0.\<close>

definition succeeded :: "run_result \<Rightarrow> bool" where
  "succeeded r = (case r of Inl e \<Rightarrow> False | Inr result \<Rightarrow> returncode result = 0)"

text \<open>The intermediate file of an input video, per side.\<close>

definition artifact_left :: "string \<Rightarrow> string" where
  "artifact_left vf = transform_output_file vf ''left''"

definition artifact_right :: "string \<Rightarrow> string" where
  "artifact_right vf = transform_output_file vf ''right''"

text \<open>The artifacts that the futures of a list register when they run during iteration \<open>k\<close>.\<close>

definition registered_left :: "env \<Rightarrow> nat \<Rightarrow> future list \<Rightarrow> string set" where
  "registered_left e k futs =
     {transform_output_file vf ''left'' | vf.
        FutureLeft vf \<in> set futs \<and> succeeded (subprocess_run e k (transform_cmd vf ''left''))}"

definition registered_right :: "env \<Rightarrow> nat \<Rightarrow> future list \<Rightarrow> string set" where
  "registered_right e k futs =
     {transform_output_file vf ''right'' | vf.
        FutureRight vf \<in> set futs \<and> succeeded (subprocess_run e k (transform_cmd vf ''right''))}"

text \<open>
  What the two executors guarantee about the order of completion: only futures that were
  submitted complete (\<open>submitted_only\<close>), and in a run where no \<open>ffmpeg\<close> process hangs
  every submitted future completes (\<open>all_finish\<close>).
\<close>

definition submitted_only :: "env \<Rightarrow> bool" where
  "submitted_only e \<longleftrightarrow> set (concat (finished e)) \<subseteq> set (futures_left e @ futures_right e)"

definition all_finish :: "env \<Rightarrow> bool" where
  "all_finish e \<longleftrightarrow> set (futures_left e @ futures_right e) \<subseteq> set (concat (finished e))"

text \<open>
  The loop, entered at evaluation \<open>k\<close> of its condition, leaves at evaluation \<open>n\<close>: the
  condition holds from \<open>k\<close> up to \<open>n\<close> and fails at \<open>n\<close>.
\<close>

definition exits_at :: "env \<Rightarrow> nat \<Rightarrow> nat \<Rightarrow> bool" where
  "exits_at e k n \<longleftrightarrow> k \<le> n \<and> \<not> loop_condition e n (world_at e n)
     \<and> (\<forall>j. k \<le> j \<and> j < n \<longrightarrow> loop_condition e j (world_at e j))"

text \<open>The pairs for which a combine task was submitted during iteration \<open>k\<close>.\<close>

definition dispatched :: "nat \<Rightarrow> world \<Rightarrow> (string \<times> string) set" where
  "dispatched k w = {(l, r). (k, Submit l r) \<in> trace w}"

subsection \<open>Example runs\<close>

definition ffmpeg_ok :: run_result where
  "ffmpeg_ok = Inr \<lparr>returncode = 0, stderr_decode = Inr ''''\<rparr>"

definition ffmpeg_failed :: run_result where
  "ffmpeg_failed = Inr \<lparr>returncode = 1, stderr_decode = Inr ''Invalid data found''\<rparr>"

text \<open>
  Two left videos and one right video; every \<open>ffmpeg\<close> call succeeds; the first left
  transform finishes before the first snapshot, the other two before the second; the
  clock advances one second per iteration.
\<close>

definition example_run :: env where
  "example_run =
     \<lparr>left_videos = [''left_dir/video1.mp4'', ''left_dir/video2.mp4''],
      right_videos = [''right_dir/video1.mp4''],
      subprocess_run = (\<lambda>k cmd. ffmpeg_ok),
      finished = [[FutureLeft ''left_dir/video1.mp4''],
                  [FutureRight ''right_dir/video1.mp4'', FutureLeft ''left_dir/video2.mp4'']],
      start_enc_time = 0,
      time_time = (\<lambda>k. real k)\<rparr>"

text \<open>
  The same run with long videos: the first iteration has nothing to join and takes no
  time, every later iteration joins the two pairs and takes a second more than three hours.
\<close>

definition over_budget_run :: env where
  "over_budget_run = example_run\<lparr>time_time := (\<lambda>k. 10801 * real (k - 1))\<rparr>"

text \<open>The same run, except that \<open>ffmpeg\<close> fails on the first left video.\<close>

definition left_fails_run :: env where
  "left_fails_run =
     example_run\<lparr>subprocess_run :=
       (\<lambda>k cmd. if cmd = transform_cmd ''left_dir/video1.mp4'' ''left''
                then ffmpeg_failed else ffmpeg_ok)\<rparr>"

text \<open>A run with no left video at all.\<close>

definition empty_left_run :: env where
  "empty_left_run =
     example_run\<lparr>left_videos := [], finished := [[FutureRight ''right_dir/video1.mp4'']]\<rparr>"

subsection \<open>Observations on the events of a task\<close>

text \<open>The commands a task has launched, in order.\<close>

fun launched :: "event list \<Rightarrow> string list list" where
  "launched [] = []"
| "launched (Run cmd # evs) = cmd # launched evs"
| "launched (ev # evs) = launched evs"

text \<open>
  Every insertion into a registry happens while the lock of that registry is held;
  \<open>held\<close> is the set of locks held before the first event.
\<close>

fun inserts_locked :: "lock set \<Rightarrow> event list \<Rightarrow> bool" where
  "inserts_locked held [] = True"
| "inserts_locked held (Acquire lk # evs) = inserts_locked (insert lk held) evs"
| "inserts_locked held (Release lk # evs) = inserts_locked (held - {lk}) evs"
| "inserts_locked held (AddLeft f # evs) =
     (lock_transformed_left \<in> held \<and> inserts_locked held evs)"
| "inserts_locked held (AddRight f # evs) =
     (lock_transformed_right \<in> held \<and> inserts_locked held evs)"
| "inserts_locked held (ev # evs) = inserts_locked held evs"

text \<open>The events of all transform tasks of a run, in the order of completion.\<close>

definition transform_events :: "env \<Rightarrow> event list" where
  "transform_events e =
     concat (map (\<lambda>k. concat (map (run_future e k) (finished e ! k))) [0..<length (finished e)])"

text \<open>The example run with an \<open>ffmpeg\<close> that fails on every call.\<close>

definition all_fail_run :: env where
  "all_fail_run = example_run\<lparr>subprocess_run := (\<lambda>k cmd. ffmpeg_failed)\<rparr>"

section \<open>Properties\<close>

subsection \<open>The loop returns exactly when its condition fails\<close>

lemma driver_loop_exit_aux:
  "\<not> loop_condition e n (world_at e n) \<Longrightarrow>
   (\<forall>j. k \<le> j \<and> j < n \<longrightarrow> loop_condition e j (world_at e j)) \<Longrightarrow> k \<le> n \<Longrightarrow>
   driver_loop e k (world_at e k) = Some (world_at e n)"
proof (induction "n - k" arbitrary: k)
  case 0
  then have "k = n" by simp
  with 0 show ?case by (simp add: driver_loop.simps)
next
  case (Suc d)
  then have lt: "k < n" by simp
  with Suc.prems have c: "loop_condition e k (world_at e k)" by simp
  have "driver_loop e (Suc k) (world_at e (Suc k)) = Some (world_at e n)"
    using Suc.hyps(1)[of "Suc k"] Suc.hyps(2) Suc.prems lt by simp
  with c show ?case by (subst driver_loop.simps) simp
qed

lemma exits_at_here: "\<not> loop_condition e k (world_at e k) \<Longrightarrow> exits_at e k k"
  by (auto simp: exits_at_def)

lemma exits_at_later:
  "loop_condition e k (world_at e k) \<Longrightarrow> exits_at e (Suc k) n \<Longrightarrow> exits_at e k n"
  unfolding exits_at_def by (metis Suc_leD Suc_leI le_neq_implies_less)

lemma driver_loop_Some:
  assumes "driver_loop e k w = Some w'"
  shows "w = world_at e k \<longrightarrow> (\<exists>n. w' = world_at e n \<and> exits_at e k n)"
proof (rule driver_loop.raw_induct
    [where P = "\<lambda>e k w w'. w = world_at e k \<longrightarrow> (\<exists>n. w' = world_at e n \<and> exits_at e k n)",
     OF _ assms])
  fix f e k w w'
  assume IH: "\<And>e k w w'. f e k w = Some w' \<Longrightarrow>
      w = world_at e k \<longrightarrow> (\<exists>n. w' = world_at e n \<and> exits_at e k n)"
    and step: "(if loop_condition e k w
                then f e (Suc k) (loop_body e k (transforms_finishing e k w))
                else Some w) = Some w'"
  show "w = world_at e k \<longrightarrow> (\<exists>n. w' = world_at e n \<and> exits_at e k n)"
  proof
    assume w: "w = world_at e k"
    show "\<exists>n. w' = world_at e n \<and> exits_at e k n"
    proof (cases "loop_condition e k w")
      case True
      with step have "f e (Suc k) (world_at e (Suc k)) = Some w'"
        by (simp add: w)
      from IH[OF this] obtain n where "w' = world_at e n" "exits_at e (Suc k) n"
        by blast
      with True w show ?thesis
        using exits_at_later by blast
    next
      case False
      with step have "w' = w" by simp
      with False w show ?thesis
        using exits_at_here by blast
    qed
  qed
qed

lemma driver_loop_exit:
  "exits_at e k n \<Longrightarrow> driver_loop e k (world_at e k) = Some (world_at e n)"
  unfolding exits_at_def using driver_loop_exit_aux by blast

lemma main_Some_iff:
  "main e = Some w \<longleftrightarrow> (\<exists>n. w = world_at e n \<and> exits_at e 0 n)"
proof
  assume "main e = Some w"
  then have "driver_loop e 0 (world_at e 0) = Some w" by (simp add: main_def)
  from driver_loop_Some[OF this] show "\<exists>n. w = world_at e n \<and> exits_at e 0 n" by simp
next
  assume "\<exists>n. w = world_at e n \<and> exits_at e 0 n"
  then obtain n where n: "w = world_at e n" "exits_at e 0 n" by blast
  from driver_loop_exit[OF n(2)] n(1) show "main e = Some w" by (simp add: main_def)
qed

lemma main_None:
  "(\<forall>n. loop_condition e n (world_at e n)) \<Longrightarrow> main e = None"
  using main_Some_iff[of e] by (cases "main e") (auto simp: exits_at_def)

subsection \<open>Effects of tasks and of one iteration\<close>

lemma perform_left: "transformed_left (perform ev w) = transformed_left w \<union> {f. ev = AddLeft f}"
  by (cases ev) auto

lemma perform_right: "transformed_right (perform ev w) = transformed_right w \<union> {f. ev = AddRight f}"
  by (cases ev) auto

lemma perform_combinations: "all_video_combinations (perform ev w) = all_video_combinations w"
  by (cases ev) auto

lemma perform_trace: "trace (perform ev w) = trace w"
  by (cases ev) auto

lemma fold_perform_left:
  "transformed_left (fold perform evs w) = transformed_left w \<union> {f. AddLeft f \<in> set evs}"
  by (induction evs arbitrary: w) (auto simp: perform_left)

lemma fold_perform_right:
  "transformed_right (fold perform evs w) = transformed_right w \<union> {f. AddRight f \<in> set evs}"
  by (induction evs arbitrary: w) (auto simp: perform_right)

lemma fold_perform_combinations:
  "all_video_combinations (fold perform evs w) = all_video_combinations w"
  by (induction evs arbitrary: w) (auto simp: perform_combinations)

lemma observe_left:
  "transformed_left (observe k evs w) = transformed_left w \<union> {f. AddLeft f \<in> set evs}"
  by (simp add: observe_def fold_perform_left)

lemma observe_right:
  "transformed_right (observe k evs w) = transformed_right w \<union> {f. AddRight f \<in> set evs}"
  by (simp add: observe_def fold_perform_right)

lemma observe_combinations:
  "all_video_combinations (observe k evs w) = all_video_combinations w"
  by (simp add: observe_def fold_perform_combinations)

lemma observe_trace: "trace (observe k evs w) = trace w \<union> Pair k ` set evs"
  by (simp add: observe_def)

lemma transform_video_events:
  "fst (transform_video run vf lk sd) =
     [Print (''Starting video transformation '' @ vf), Run (transform_cmd vf sd)] @
     (case run (transform_cmd vf sd) of
        Inl e \<Rightarrow> [Print (''Exception video transformation '' @ vf @ '': '' @ e)]
      | Inr result \<Rightarrow>
          Sleep INTER_DEC_TIME #
          (if returncode result \<noteq> 0 then
             (case stderr_decode result of
                Inl e \<Rightarrow> [Print (''Exception video transformation '' @ vf @ '': '' @ e)]
              | Inr err \<Rightarrow> [Print (''Error video transformation '' @ vf @ '': '' @ err)])
           else [Print (''Finished video transformation '' @ vf), Acquire lk,
                 (if sd = ''left'' then AddLeft (transform_output_file vf sd)
                  else AddRight (transform_output_file vf sd)),
                 Release lk]))"
  by (simp add: transform_video_def transform_video_try_def Let_def split: sum.splits)

lemma join_videos_events:
  "fst (join_videos run l r) =
     [Print (''Writing to '' @ join_output_file l r), Run (join_cmd l r)] @
     (case run (join_cmd l r) of
        Inl e \<Rightarrow> [Print (''Exception writing to '' @ join_output_file l r @ '': '' @ e)]
      | Inr result \<Rightarrow>
          Sleep INTER_ENC_TIME #
          (if returncode result \<noteq> 0 then
             (case stderr_decode result of
                Inl e \<Rightarrow> [Print (''Exception writing to '' @ join_output_file l r @ '': '' @ e)]
              | Inr err \<Rightarrow> [Print (''Error writing to '' @ join_output_file l r @ '': '' @ err)])
           else [Print (''Finished writing to '' @ join_output_file l r)]))"
  by (simp add: join_videos_def join_videos_try_def Let_def split: sum.splits)

lemma transform_video_adds_left:
  "AddLeft f \<in> set (fst (transform_video run vf lk sd)) \<longleftrightarrow>
     sd = ''left'' \<and> succeeded (run (transform_cmd vf sd)) \<and> f = transform_output_file vf sd"
  by (auto simp: transform_video_events succeeded_def split: sum.splits)

lemma transform_video_adds_right:
  "AddRight f \<in> set (fst (transform_video run vf lk sd)) \<longleftrightarrow>
     sd \<noteq> ''left'' \<and> succeeded (run (transform_cmd vf sd)) \<and> f = transform_output_file vf sd"
  by (auto simp: transform_video_events succeeded_def split: sum.splits)

lemma transform_video_no_submit: "Submit l r \<notin> set (fst (transform_video run vf lk sd))"
  by (auto simp: transform_video_events split: sum.splits)

lemma join_videos_no_add:
  "AddLeft f \<notin> set (fst (join_videos run l r))" "AddRight f \<notin> set (fst (join_videos run l r))"
  "Submit a b \<notin> set (fst (join_videos run l r))"
  by (auto simp: join_videos_events split: sum.splits)

lemma run_future_adds_left:
  "AddLeft f \<in> set (run_future e k fut) \<longleftrightarrow>
     (\<exists>vf. fut = FutureLeft vf \<and> succeeded (subprocess_run e k (transform_cmd vf ''left''))
           \<and> f = transform_output_file vf ''left'')"
  by (cases fut) (auto simp: transform_video_adds_left transform_video_adds_right)

lemma run_future_adds_right:
  "AddRight f \<in> set (run_future e k fut) \<longleftrightarrow>
     (\<exists>vf. fut = FutureRight vf \<and> succeeded (subprocess_run e k (transform_cmd vf ''right''))
           \<and> f = transform_output_file vf ''right'')"
  by (cases fut) (auto simp: transform_video_adds_left transform_video_adds_right)

lemma run_future_no_submit: "Submit l r \<notin> set (run_future e k fut)"
  by (cases fut) (auto simp: transform_video_no_submit)

lemma fold_futures_left:
  "transformed_left (fold (\<lambda>fut. observe k (run_future e k fut)) futs w) =
     transformed_left w \<union> registered_left e k futs"
  by (induction futs arbitrary: w)
     (auto simp: observe_left run_future_adds_left registered_left_def)

lemma fold_futures_right:
  "transformed_right (fold (\<lambda>fut. observe k (run_future e k fut)) futs w) =
     transformed_right w \<union> registered_right e k futs"
  by (induction futs arbitrary: w)
     (auto simp: observe_right run_future_adds_right registered_right_def)

lemma fold_futures_combinations:
  "all_video_combinations (fold (\<lambda>fut. observe k (run_future e k fut)) futs w) =
     all_video_combinations w"
  by (induction futs arbitrary: w) (auto simp: observe_combinations)

lemma fold_futures_trace:
  "trace (fold (\<lambda>fut. observe k (run_future e k fut)) futs w) =
     trace w \<union> Pair k ` (\<Union>fut \<in> set futs. set (run_future e k fut))"
  by (induction futs arbitrary: w) (auto simp: observe_trace)

lemma transforms_finishing_left:
  "transformed_left (transforms_finishing e k w) =
     transformed_left w \<union> registered_left e k (arrivals e k)"
  by (simp add: transforms_finishing_def fold_futures_left)

lemma transforms_finishing_right:
  "transformed_right (transforms_finishing e k w) =
     transformed_right w \<union> registered_right e k (arrivals e k)"
  by (simp add: transforms_finishing_def fold_futures_right)

lemma transforms_finishing_combinations:
  "all_video_combinations (transforms_finishing e k w) = all_video_combinations w"
  by (simp add: transforms_finishing_def fold_futures_combinations)

lemma transforms_finishing_trace:
  "trace (transforms_finishing e k w) =
     trace w \<union> Pair k ` (\<Union>fut \<in> set (arrivals e k). set (run_future e k fut))"
  by (simp add: transforms_finishing_def fold_futures_trace)

lemma loop_body_left: "transformed_left (loop_body e k w) = transformed_left w"
  by (simp add: loop_body_def Let_def observe_left)

lemma loop_body_right: "transformed_right (loop_body e k w) = transformed_right w"
  by (simp add: loop_body_def Let_def observe_right)

lemma loop_body_combinations:
  "all_video_combinations (loop_body e k w) =
     all_video_combinations w \<union> transformed_left w \<times> transformed_right w"
  by (simp add: loop_body_def Let_def observe_combinations)

lemma loop_body_trace:
  "trace (loop_body e k w) =
     trace w
     \<union> Pair k ` {Acquire lock_transformed_left, Acquire lock_transformed_right,
                 PrintCombinations (transformed_left w \<times> transformed_right w),
                 Release lock_transformed_right, Release lock_transformed_left}
     \<union> Pair k ` join_batch e k (transformed_left w \<times> transformed_right w)"
  by (simp add: loop_body_def Let_def observe_trace)

lemma world_at_left_Suc:
  "transformed_left (world_at e (Suc n)) =
     transformed_left (world_at e n) \<union> registered_left e n (arrivals e n)"
  by (simp add: loop_body_left transforms_finishing_left)

lemma world_at_right_Suc:
  "transformed_right (world_at e (Suc n)) =
     transformed_right (world_at e n) \<union> registered_right e n (arrivals e n)"
  by (simp add: loop_body_right transforms_finishing_right)

lemma world_at_combinations:
  "all_video_combinations (world_at e n) =
     transformed_left (world_at e n) \<times> transformed_right (world_at e n)"
proof (induction n)
  case 0
  show ?case by (simp add: init_world_def)
next
  case (Suc n)
  have "all_video_combinations (world_at e (Suc n)) =
          all_video_combinations (world_at e n)
          \<union> transformed_left (world_at e (Suc n)) \<times> transformed_right (world_at e (Suc n))"
    by (simp add: loop_body_combinations loop_body_left loop_body_right
        transforms_finishing_combinations)
  also have "\<dots> = transformed_left (world_at e (Suc n)) \<times> transformed_right (world_at e (Suc n))"
    unfolding Suc.IH world_at_left_Suc world_at_right_Suc by blast
  finally show ?case .
qed

lemma world_at_left:
  "transformed_left (world_at e n) = (\<Union>k<n. registered_left e k (arrivals e k))"
proof (induction n)
  case 0 show ?case by (simp add: init_world_def)
next
  case (Suc n)
  show ?case unfolding world_at_left_Suc Suc.IH by (auto simp: less_Suc_eq)
qed

lemma world_at_right:
  "transformed_right (world_at e n) = (\<Union>k<n. registered_right e k (arrivals e k))"
proof (induction n)
  case 0 show ?case by (simp add: init_world_def)
next
  case (Suc n)
  show ?case unfolding world_at_right_Suc Suc.IH by (auto simp: less_Suc_eq)
qed

lemma join_batch_submit:
  "Submit l r \<in> join_batch e k P \<longleftrightarrow> (l, r) \<in> P"
  by (auto simp: join_batch_def join_videos_no_add intro!: bexI[of _ "(l, r)"])

lemma world_at_submit:
  "(k, Submit l r) \<in> trace (world_at e n) \<longleftrightarrow>
     k < n \<and> (l, r) \<in> transformed_left (world_at e (Suc k)) \<times> transformed_right (world_at e (Suc k))"
proof (induction n)
  case 0 show ?case by (simp add: init_world_def)
next
  case (Suc n)
  have "(k, Submit l r) \<in> trace (world_at e (Suc n)) \<longleftrightarrow>
          (k, Submit l r) \<in> trace (world_at e n)
          \<or> k = n \<and> (l, r) \<in> transformed_left (world_at e (Suc n)) \<times> transformed_right (world_at e (Suc n))"
    by (auto simp: loop_body_trace transforms_finishing_trace run_future_no_submit
        join_batch_submit loop_body_left loop_body_right)
  then show ?case unfolding Suc.IH by (auto simp: less_Suc_eq)
qed

subsection \<open>Registry contents and sizes\<close>

lemma arrivals_subset: "set (arrivals e k) \<subseteq> set (concat (finished e))"
proof (cases "k < length (finished e)")
  case True
  then have "finished e ! k \<in> set (finished e)" by simp
  then have "set (finished e ! k) \<subseteq> set (concat (finished e))" by auto
  with True show ?thesis by (simp add: arrivals_def)
next
  case False
  then show ?thesis by (simp add: arrivals_def)
qed

lemma arrival_left_submitted:
  assumes "submitted_only e" and "FutureLeft vf \<in> set (arrivals e k)"
  shows "vf \<in> set (left_videos e)"
proof -
  from assms(2) arrivals_subset have "FutureLeft vf \<in> set (concat (finished e))" by blast
  with assms(1) have "FutureLeft vf \<in> set (futures_left e @ futures_right e)"
    unfolding submitted_only_def by blast
  then show ?thesis by (auto simp: futures_left_def futures_right_def)
qed

lemma arrival_right_submitted:
  assumes "submitted_only e" and "FutureRight vf \<in> set (arrivals e k)"
  shows "vf \<in> set (right_videos e)"
proof -
  from assms(2) arrivals_subset have "FutureRight vf \<in> set (concat (finished e))" by blast
  with assms(1) have "FutureRight vf \<in> set (futures_left e @ futures_right e)"
    unfolding submitted_only_def by blast
  then show ?thesis by (auto simp: futures_left_def futures_right_def)
qed

lemma arrivals_beyond: "length (finished e) \<le> k \<Longrightarrow> arrivals e k = []"
  by (simp add: arrivals_def)

lemma registered_left_subset:
  "submitted_only e \<Longrightarrow> registered_left e k (arrivals e k) \<subseteq> artifact_left ` set (left_videos e)"
  using arrival_left_submitted[of e _ k]
  by (auto simp: registered_left_def artifact_left_def)

lemma registered_right_subset:
  "submitted_only e \<Longrightarrow> registered_right e k (arrivals e k) \<subseteq> artifact_right ` set (right_videos e)"
  using arrival_right_submitted[of e _ k]
  by (auto simp: registered_right_def artifact_right_def)

lemma world_at_left_subset:
  "submitted_only e \<Longrightarrow> transformed_left (world_at e n) \<subseteq> artifact_left ` set (left_videos e)"
  unfolding world_at_left using registered_left_subset by blast

lemma world_at_right_subset:
  "submitted_only e \<Longrightarrow> transformed_right (world_at e n) \<subseteq> artifact_right ` set (right_videos e)"
  unfolding world_at_right using registered_right_subset by blast

lemma card_image_list: "card (f ` set xs) \<le> length xs"
  by (metis card_image_le card_length le_trans List.finite_set)

lemma world_at_left_card:
  "submitted_only e \<Longrightarrow> card (transformed_left (world_at e n)) \<le> length (left_videos e)"
  by (meson card_image_list card_mono finite_imageI List.finite_set le_trans world_at_left_subset)

lemma world_at_right_card:
  "submitted_only e \<Longrightarrow> card (transformed_right (world_at e n)) \<le> length (right_videos e)"
  by (meson card_image_list card_mono finite_imageI List.finite_set le_trans world_at_right_subset)

lemma world_at_card:
  "card (all_video_combinations (world_at e n)) =
     card (transformed_left (world_at e n)) * card (transformed_right (world_at e n))"
  by (simp add: world_at_combinations card_cartesian_product)

lemma world_at_left_mono: "transformed_left (world_at e n) \<subseteq> transformed_left (world_at e (n + m))"
  by (induction m) (auto simp: world_at_left_Suc simp del: world_at.simps)

lemma world_at_right_mono: "transformed_right (world_at e n) \<subseteq> transformed_right (world_at e (n + m))"
  by (induction m) (auto simp: world_at_right_Suc simp del: world_at.simps)

text \<open>A left input whose transform never succeeds never gets its artifact registered,
  provided no other left input has the same base name.\<close>

lemma failed_left_absent:
  assumes "submitted_only e"
    and "\<forall>k. \<not> succeeded (subprocess_run e k (transform_cmd bad ''left''))"
    and "\<forall>vf \<in> set (left_videos e). artifact_left vf = artifact_left bad \<longrightarrow> vf = bad"
  shows "artifact_left bad \<notin> transformed_left (world_at e n)"
proof
  assume "artifact_left bad \<in> transformed_left (world_at e n)"
  then obtain k vf where kv: "FutureLeft vf \<in> set (arrivals e k)"
    "succeeded (subprocess_run e k (transform_cmd vf ''left''))"
    "artifact_left bad = artifact_left vf"
    by (auto simp: world_at_left registered_left_def artifact_left_def)
  from kv(1) assms(1) have "vf \<in> set (left_videos e)"
    using arrival_left_submitted by blast
  with assms(3) kv(3) have "vf = bad" by auto
  with kv(2) assms(2) show False by auto
qed

lemma failed_left_card:
  assumes "submitted_only e"
    and "bad \<in> set (left_videos e)"
    and "\<forall>k. \<not> succeeded (subprocess_run e k (transform_cmd bad ''left''))"
  shows "card (transformed_left (world_at e n)) < length (left_videos e)"
proof -
  have sub: "transformed_left (world_at e n) \<subseteq> artifact_left ` (set (left_videos e) - {bad})"
  proof
    fix a assume "a \<in> transformed_left (world_at e n)"
    then obtain k vf where kv: "FutureLeft vf \<in> set (arrivals e k)"
      "succeeded (subprocess_run e k (transform_cmd vf ''left''))"
      "a = artifact_left vf"
      by (auto simp: world_at_left registered_left_def artifact_left_def)
    from kv(1) assms(1) have "vf \<in> set (left_videos e)"
      using arrival_left_submitted by blast
    moreover from kv(2) assms(3) have "vf \<noteq> bad" by auto
    ultimately show "a \<in> artifact_left ` (set (left_videos e) - {bad})"
      using kv(3) by auto
  qed
  have "card (transformed_left (world_at e n)) \<le> card (artifact_left ` (set (left_videos e) - {bad}))"
    by (rule card_mono) (use sub in auto)
  also have "\<dots> \<le> card (set (left_videos e) - {bad})"
    by (rule card_image_le) simp
  also have "\<dots> < card (set (left_videos e))"
    by (rule psubset_card_mono) (use assms(2) in auto)
  also have "\<dots> \<le> length (left_videos e)"
    by (rule card_length)
  finally show ?thesis .
qed

lemma failed_left_never_terminates:
  assumes "submitted_only e"
    and "bad \<in> set (left_videos e)"
    and "\<forall>k. \<not> succeeded (subprocess_run e k (transform_cmd bad ''left''))"
    and "right_videos e \<noteq> []"
  shows "main e = None"
proof (rule main_None, rule allI)
  fix n
  have l: "card (transformed_left (world_at e n)) < length (left_videos e)"
    using failed_left_card[OF assms(1-3)] .
  have r: "card (transformed_right (world_at e n)) \<le> length (right_videos e)"
    using world_at_right_card[OF assms(1)] .
  have "0 < length (right_videos e)" using assms(4) by simp
  with l have "card (transformed_left (world_at e n)) * length (right_videos e)
      < length (left_videos e) * length (right_videos e)"
    by simp
  moreover have "card (transformed_left (world_at e n)) * card (transformed_right (world_at e n))
      \<le> card (transformed_left (world_at e n)) * length (right_videos e)"
    using r by simp
  ultimately have "card (all_video_combinations (world_at e n)) < total_outputs_number e"
    unfolding world_at_card total_outputs_number_def by linarith
  then show "loop_condition e n (world_at e n)"
    by (simp add: loop_condition_def)
qed

subsection \<open>Paths of the intermediate and final files\<close>

lemma basename_no_slash: "CHR ''/'' \<notin> set (basename p)"
  unfolding basename_def using set_takeWhileD by fastforce

lemma path_join_relative:
  assumes "a \<noteq> []" and "last a \<noteq> CHR ''/''" and "b = [] \<or> hd b \<noteq> CHR ''/''"
  shows "path_join a b = a @ ''/'' @ b"
  using assms by (auto simp: path_join_def)

lemma basename_hd: "basename p = [] \<or> hd (basename p) \<noteq> CHR ''/''"
  using basename_no_slash[of p] by (cases "basename p") auto

lemma transform_output_file_left:
  "transform_output_file vf ''left'' = ''transformed_left_videos/'' @ basename vf"
  using path_join_relative[OF _ _ basename_hd, of output_left_dir vf]
  by (simp add: transform_output_file_def output_left_dir_def)

lemma transform_output_file_right:
  "transform_output_file vf ''right'' = ''transformed_right_videos/'' @ basename vf"
  using path_join_relative[OF _ _ basename_hd, of output_right_dir vf]
  by (simp add: transform_output_file_def output_right_dir_def)

lemma join_output_basename_hd:
  "hd (join_output_basename l r) \<noteq> CHR ''/''"
proof (cases "drop_last4 (basename l)")
  case Nil
  then show ?thesis by (simp add: join_output_basename_def)
next
  case (Cons c cs)
  then have "c \<in> set (take (length (basename l) - 4) (basename l))"
    by (simp add: drop_last4_def)
  then have "c \<in> set (basename l)" by (rule in_set_takeD)
  then have "c \<noteq> CHR ''/''" using basename_no_slash by metis
  then show ?thesis using Cons by (simp add: join_output_basename_def)
qed

lemma join_output_file_eq:
  "join_output_file l r = ''video_output/'' @ drop_last4 (basename l) @ ''_'' @ basename r"
  using path_join_relative[of final_output_dir "join_output_basename l r"]
    join_output_basename_hd[of l r]
  by (simp add: join_output_file_def final_output_dir_def join_output_basename_def)

lemma left_fails_run_submitted_only: "submitted_only left_fails_run"
  by (simp add: submitted_only_def left_fails_run_def example_run_def futures_left_def futures_right_def)

subsection \<open>Dispatched pairs\<close>

lemma registered_left_Nil: "registered_left e k [] = {}"
  by (simp add: registered_left_def)

lemma registered_left_Cons_left:
  "registered_left e k (FutureLeft vf # futs) =
     (if succeeded (subprocess_run e k (transform_cmd vf ''left'')) then {artifact_left vf} else {})
     \<union> registered_left e k futs"
  by (auto simp: registered_left_def artifact_left_def)

lemma registered_left_Cons_right:
  "registered_left e k (FutureRight vf # futs) = registered_left e k futs"
  by (auto simp: registered_left_def)

lemma registered_right_Nil: "registered_right e k [] = {}"
  by (simp add: registered_right_def)

lemma registered_right_Cons_right:
  "registered_right e k (FutureRight vf # futs) =
     (if succeeded (subprocess_run e k (transform_cmd vf ''right'')) then {artifact_right vf} else {})
     \<union> registered_right e k futs"
  by (auto simp: registered_right_def artifact_right_def)

lemma registered_right_Cons_left:
  "registered_right e k (FutureLeft vf # futs) = registered_right e k futs"
  by (auto simp: registered_right_def)

lemmas registered_simps =
  registered_left_Nil registered_left_Cons_left registered_left_Cons_right
  registered_right_Nil registered_right_Cons_right registered_right_Cons_left

lemma dispatched_world_at:
  "dispatched k (world_at e n) =
     (if k < n then transformed_left (world_at e (Suc k)) \<times> transformed_right (world_at e (Suc k))
      else {})"
  unfolding dispatched_def using world_at_submit[of k _ _ e n] by auto

lemma world_at_left_mono_le: "m \<le> n \<Longrightarrow> transformed_left (world_at e m) \<subseteq> transformed_left (world_at e n)"
  using world_at_left_mono[of e m "n - m"] by simp

lemma world_at_right_mono_le: "m \<le> n \<Longrightarrow> transformed_right (world_at e m) \<subseteq> transformed_right (world_at e n)"
  using world_at_right_mono[of e m "n - m"] by simp

lemma produced_is_dispatched:
  "all_video_combinations (world_at e n) = (\<Union>k<n. dispatched k (world_at e n))"
proof (cases n)
  case 0
  then show ?thesis by (simp add: init_world_def)
next
  case (Suc m)
  have "(\<Union>k<n. dispatched k (world_at e n)) =
        (\<Union>k<n. transformed_left (world_at e (Suc k)) \<times> transformed_right (world_at e (Suc k)))"
    by (simp add: dispatched_world_at del: world_at.simps)
  also have "\<dots> = transformed_left (world_at e n) \<times> transformed_right (world_at e n)"
  proof
    show "(\<Union>k<n. transformed_left (world_at e (Suc k)) \<times> transformed_right (world_at e (Suc k)))
          \<subseteq> transformed_left (world_at e n) \<times> transformed_right (world_at e n)"
    proof
      fix p assume "p \<in> (\<Union>k<n. transformed_left (world_at e (Suc k)) \<times> transformed_right (world_at e (Suc k)))"
      then obtain k where k: "k < n" "p \<in> transformed_left (world_at e (Suc k)) \<times> transformed_right (world_at e (Suc k))"
        by blast
      from k(1) have "Suc k \<le> n" by simp
      from world_at_left_mono_le[OF this, of e] world_at_right_mono_le[OF this, of e] k(2)
      show "p \<in> transformed_left (world_at e n) \<times> transformed_right (world_at e n)" by blast
    qed
    show "transformed_left (world_at e n) \<times> transformed_right (world_at e n)
          \<subseteq> (\<Union>k<n. transformed_left (world_at e (Suc k)) \<times> transformed_right (world_at e (Suc k)))"
      using Suc by blast
  qed
  finally show ?thesis by (simp add: world_at_combinations del: world_at.simps)
qed

subsection \<open>The run that exceeds its time budget\<close>

lemma over_budget_run_fields:
  "left_videos over_budget_run = [''left_dir/video1.mp4'', ''left_dir/video2.mp4'']"
  "right_videos over_budget_run = [''right_dir/video1.mp4'']"
  "subprocess_run over_budget_run k cmd = ffmpeg_ok"
  "start_enc_time over_budget_run = 0"
  "time_time over_budget_run k = 10801 * real (k - 1)"
  "arrivals over_budget_run 0 = [FutureLeft ''left_dir/video1.mp4'']"
  "arrivals over_budget_run (Suc 0) = [FutureRight ''right_dir/video1.mp4'', FutureLeft ''left_dir/video2.mp4'']"
  "arrivals over_budget_run (Suc (Suc n)) = []"
  by (simp_all add: over_budget_run_def example_run_def arrivals_def)

lemma ffmpeg_ok_succeeded: "succeeded ffmpeg_ok"
  by (simp add: succeeded_def ffmpeg_ok_def)

lemma over_budget_left_1:
  "transformed_left (world_at over_budget_run (Suc 0)) = {artifact_left ''left_dir/video1.mp4''}"
  unfolding world_at_left_Suc[of _ 0]
  by (simp add: init_world_def over_budget_run_fields registered_simps ffmpeg_ok_succeeded)

lemma over_budget_right_1:
  "transformed_right (world_at over_budget_run (Suc 0)) = {}"
  unfolding world_at_right_Suc[of _ 0]
  by (simp add: init_world_def over_budget_run_fields registered_simps ffmpeg_ok_succeeded)

lemma over_budget_left_2:
  "transformed_left (world_at over_budget_run (Suc (Suc n))) =
     {artifact_left ''left_dir/video1.mp4'', artifact_left ''left_dir/video2.mp4''}"
proof (induction n)
  case 0
  show ?case
    unfolding world_at_left_Suc[of _ "Suc 0"] over_budget_left_1
    by (simp add: over_budget_run_fields registered_simps ffmpeg_ok_succeeded insert_commute)
next
  case (Suc n)
  show ?case
    unfolding world_at_left_Suc[of _ "Suc (Suc n)"] Suc.IH
    by (simp add: over_budget_run_fields registered_simps)
qed

lemma over_budget_right_2:
  "transformed_right (world_at over_budget_run (Suc (Suc n))) =
     {artifact_right ''right_dir/video1.mp4''}"
proof (induction n)
  case 0
  show ?case
    unfolding world_at_right_Suc[of _ "Suc 0"] over_budget_right_1
    by (simp add: over_budget_run_fields registered_simps ffmpeg_ok_succeeded)
next
  case (Suc n)
  show ?case
    unfolding world_at_right_Suc[of _ "Suc (Suc n)"] Suc.IH
    by (simp add: over_budget_run_fields registered_simps)
qed

lemma artifact_left_eq: "artifact_left vf = ''transformed_left_videos/'' @ basename vf"
  by (simp add: artifact_left_def transform_output_file_left)

lemma artifact_right_eq: "artifact_right vf = ''transformed_right_videos/'' @ basename vf"
  by (simp add: artifact_right_def transform_output_file_right)

lemma over_budget_loops: "loop_condition over_budget_run n (world_at over_budget_run n)"
proof -
  consider "n = 0" | "n = Suc 0" | m where "n = Suc (Suc m)"
    by (metis not0_implies_Suc)
  then show ?thesis
  proof cases
    case 1
    then show ?thesis
      by (simp add: loop_condition_def init_world_def total_outputs_number_def
          over_budget_run_fields)
  next
    case 2
    have "card (all_video_combinations (world_at over_budget_run (Suc 0))) = 0"
      unfolding world_at_card over_budget_left_1 over_budget_right_1 by simp
    then show ?thesis
      unfolding 2 loop_condition_def
      by (simp add: total_outputs_number_def over_budget_run_fields del: world_at.simps)
  next
    case 3
    then have "time_time over_budget_run n - start_enc_time over_budget_run > MAX_ENC_TIME"
      by (simp add: over_budget_run_fields MAX_ENC_TIME_def)
    then show ?thesis by (simp add: loop_condition_def)
  qed
qed

subsection \<open>Convergence within the time budget\<close>

lemma complete_within_budget_stops:
  assumes "total_outputs_number e \<le> card (all_video_combinations (world_at e k))"
    and "time_time e k - start_enc_time e \<le> MAX_ENC_TIME"
  shows "driver_loop e k (world_at e k) = Some (world_at e k)"
    and "dispatched k (world_at e k) = {}"
proof -
  from assms have "\<not> loop_condition e k (world_at e k)"
    by (simp add: loop_condition_def)
  then show "driver_loop e k (world_at e k) = Some (world_at e k)"
    by (intro driver_loop_exit exits_at_here)
  show "dispatched k (world_at e k) = {}"
    by (simp add: dispatched_world_at)
qed

lemma failed_left_never_dispatched:
  assumes "submitted_only e"
    and "\<forall>k. \<not> succeeded (subprocess_run e k (transform_cmd bad ''left''))"
    and "\<forall>vf \<in> set (left_videos e). artifact_left vf = artifact_left bad \<longrightarrow> vf = bad"
  shows "(artifact_left bad, r) \<notin> dispatched k (world_at e n)"
  using failed_left_absent[OF assms, of "Suc k"]
  by (auto simp: dispatched_world_at simp del: world_at.simps)

lemma artifact_left_distinct:
  assumes "distinct (map basename xs)"
  shows "card (artifact_left ` set xs) = length xs"
proof -
  from assms have dx: "distinct xs" and inj: "inj_on basename (set xs)"
    by (simp_all add: distinct_map)
  have "inj_on artifact_left (set xs)"
    using inj by (auto simp: inj_on_def artifact_left_eq)
  then have "card (artifact_left ` set xs) = card (set xs)" by (rule card_image)
  also have "\<dots> = length xs" using dx by (rule distinct_card)
  finally show ?thesis .
qed

lemma artifact_right_distinct:
  assumes "distinct (map basename xs)"
  shows "card (artifact_right ` set xs) = length xs"
proof -
  from assms have dx: "distinct xs" and inj: "inj_on basename (set xs)"
    by (simp_all add: distinct_map)
  have "inj_on artifact_right (set xs)"
    using inj by (auto simp: inj_on_def artifact_right_eq)
  then have "card (artifact_right ` set xs) = card (set xs)" by (rule card_image)
  also have "\<dots> = length xs" using dx by (rule distinct_card)
  finally show ?thesis .
qed

lemma all_finished_left:
  assumes "submitted_only e" and "all_finish e"
    and "\<forall>k. \<forall>vf \<in> set (left_videos e). succeeded (subprocess_run e k (transform_cmd vf ''left''))"
  shows "transformed_left (world_at e (length (finished e))) = artifact_left ` set (left_videos e)"
proof
  show "transformed_left (world_at e (length (finished e))) \<subseteq> artifact_left ` set (left_videos e)"
    by (rule world_at_left_subset[OF assms(1)])
  show "artifact_left ` set (left_videos e) \<subseteq> transformed_left (world_at e (length (finished e)))"
  proof
    fix a assume "a \<in> artifact_left ` set (left_videos e)"
    then obtain vf where vf: "vf \<in> set (left_videos e)" "a = artifact_left vf" by blast
    then have "FutureLeft vf \<in> set (futures_left e @ futures_right e)"
      by (simp add: futures_left_def)
    with assms(2) have "FutureLeft vf \<in> set (concat (finished e))"
      unfolding all_finish_def by blast
    then obtain fs where "fs \<in> set (finished e)" "FutureLeft vf \<in> set fs" by auto
    then obtain k where k: "k < length (finished e)" "FutureLeft vf \<in> set (finished e ! k)"
      by (metis in_set_conv_nth)
    then have "FutureLeft vf \<in> set (arrivals e k)" by (simp add: arrivals_def)
    moreover have "succeeded (subprocess_run e k (transform_cmd vf ''left''))"
      using assms(3) vf(1) by blast
    ultimately have "a \<in> registered_left e k (arrivals e k)"
      using vf(2) by (auto simp: registered_left_def artifact_left_def)
    with k(1) show "a \<in> transformed_left (world_at e (length (finished e)))"
      unfolding world_at_left by blast
  qed
qed

lemma all_finished_right:
  assumes "submitted_only e" and "all_finish e"
    and "\<forall>k. \<forall>vf \<in> set (right_videos e). succeeded (subprocess_run e k (transform_cmd vf ''right''))"
  shows "transformed_right (world_at e (length (finished e))) = artifact_right ` set (right_videos e)"
proof
  show "transformed_right (world_at e (length (finished e))) \<subseteq> artifact_right ` set (right_videos e)"
    by (rule world_at_right_subset[OF assms(1)])
  show "artifact_right ` set (right_videos e) \<subseteq> transformed_right (world_at e (length (finished e)))"
  proof
    fix a assume "a \<in> artifact_right ` set (right_videos e)"
    then obtain vf where vf: "vf \<in> set (right_videos e)" "a = artifact_right vf" by blast
    then have "FutureRight vf \<in> set (futures_left e @ futures_right e)"
      by (simp add: futures_right_def)
    with assms(2) have "FutureRight vf \<in> set (concat (finished e))"
      unfolding all_finish_def by blast
    then obtain fs where "fs \<in> set (finished e)" "FutureRight vf \<in> set fs" by auto
    then obtain k where k: "k < length (finished e)" "FutureRight vf \<in> set (finished e ! k)"
      by (metis in_set_conv_nth)
    then have "FutureRight vf \<in> set (arrivals e k)" by (simp add: arrivals_def)
    moreover have "succeeded (subprocess_run e k (transform_cmd vf ''right''))"
      using assms(3) vf(1) by blast
    ultimately have "a \<in> registered_right e k (arrivals e k)"
      using vf(2) by (auto simp: registered_right_def artifact_right_def)
    with k(1) show "a \<in> transformed_right (world_at e (length (finished e)))"
      unfolding world_at_right by blast
  qed
qed

text \<open>A full product can only come from full registries.\<close>

lemma full_product:
  assumes "A \<subseteq> A'" "B \<subseteq> B'" "finite A'" "finite B'"
    and "card A' * card B' \<le> card A * card B" and "A' \<noteq> {}" "B' \<noteq> {}"
  shows "A = A' \<and> B = B'"
proof -
  have a: "card A \<le> card A'" and b: "card B \<le> card B'"
    using assms(1-4) by (auto intro: card_mono)
  have pa: "0 < card A'" and pb: "0 < card B'"
    using assms(3,4,6,7) by (auto simp: card_gt_0_iff)
  have "card A = card A'"
  proof (rule ccontr)
    assume "card A \<noteq> card A'"
    with a have "card A < card A'" by simp
    then have "card A * card B' < card A' * card B'" using pb by simp
    moreover have "card A * card B \<le> card A * card B'" using b by simp
    ultimately show False using assms(5) by linarith
  qed
  moreover have "card B = card B'"
  proof (rule ccontr)
    assume "card B \<noteq> card B'"
    with b have "card B < card B'" by simp
    then have "card A' * card B < card A' * card B'" using pa by simp
    moreover have "card A * card B \<le> card A' * card B" using a by simp
    ultimately show False using assms(5) by linarith
  qed
  ultimately show ?thesis
    using assms(1-4) by (auto simp: card_subset_eq)
qed

lemma converges_within_budget:
  assumes so: "submitted_only e" and af: "all_finish e"
    and okl: "\<forall>k. \<forall>vf \<in> set (left_videos e). succeeded (subprocess_run e k (transform_cmd vf ''left''))"
    and okr: "\<forall>k. \<forall>vf \<in> set (right_videos e). succeeded (subprocess_run e k (transform_cmd vf ''right''))"
    and dl: "distinct (map basename (left_videos e))"
    and dr: "distinct (map basename (right_videos e))"
    and nel: "left_videos e \<noteq> []" and ner: "right_videos e \<noteq> []"
    and budget: "\<forall>k \<le> length (finished e). time_time e k - start_enc_time e \<le> MAX_ENC_TIME"
  shows "\<exists>n \<le> length (finished e).
           main e = Some (world_at e n)
         \<and> all_video_combinations (world_at e n) =
             artifact_left ` set (left_videos e) \<times> artifact_right ` set (right_videos e)
         \<and> card (all_video_combinations (world_at e n)) =
             length (left_videos e) * length (right_videos e)
         \<and> (\<Union>k<n. dispatched k (world_at e n)) =
             artifact_left ` set (left_videos e) \<times> artifact_right ` set (right_videos e)"
proof -
  let ?N = "length (finished e)"
  let ?L = "artifact_left ` set (left_videos e)" and ?R = "artifact_right ` set (right_videos e)"
  have cL: "card ?L = length (left_videos e)" by (rule artifact_left_distinct[OF dl])
  have cR: "card ?R = length (right_videos e)" by (rule artifact_right_distinct[OF dr])
  have "card (all_video_combinations (world_at e ?N)) = total_outputs_number e"
    unfolding world_at_card all_finished_left[OF so af okl] all_finished_right[OF so af okr] cL cR
    by (simp add: total_outputs_number_def)
  moreover have "time_time e ?N - start_enc_time e \<le> MAX_ENC_TIME" using budget by simp
  ultimately have stopN: "\<not> loop_condition e ?N (world_at e ?N)"
    by (simp add: loop_condition_def)
  define n where "n = (LEAST n. \<not> loop_condition e n (world_at e n))"
  have stop: "\<not> loop_condition e n (world_at e n)"
    unfolding n_def using stopN by (rule LeastI)
  have nN: "n \<le> ?N" unfolding n_def using stopN by (rule Least_le)
  have before: "\<forall>j. 0 \<le> j \<and> j < n \<longrightarrow> loop_condition e j (world_at e j)"
    unfolding n_def using not_less_Least by blast
  have "exits_at e 0 n" using stop before by (simp add: exits_at_def)
  then have m: "main e = Some (world_at e n)" using main_Some_iff by blast
  have "time_time e n - start_enc_time e \<le> MAX_ENC_TIME" using budget nN by simp
  with stop have "total_outputs_number e \<le> card (all_video_combinations (world_at e n))"
    by (simp add: loop_condition_def)
  then have big: "card ?L * card ?R
      \<le> card (transformed_left (world_at e n)) * card (transformed_right (world_at e n))"
    unfolding world_at_card cL cR by (simp add: total_outputs_number_def)
  have "transformed_left (world_at e n) = ?L \<and> transformed_right (world_at e n) = ?R"
    by (rule full_product[OF world_at_left_subset[OF so] world_at_right_subset[OF so] _ _ big])
       (use nel ner in auto)
  then have full: "all_video_combinations (world_at e n) = ?L \<times> ?R"
    by (simp add: world_at_combinations)
  have c: "card (all_video_combinations (world_at e n)) =
             length (left_videos e) * length (right_videos e)"
    unfolding full by (simp add: card_cartesian_product cL cR)
  have d: "(\<Union>k<n. dispatched k (world_at e n)) = ?L \<times> ?R"
    using produced_is_dispatched[of e n] full by simp
  from nN m full c d show ?thesis by blast
qed

subsection \<open>The example runs\<close>

lemma failed_left_incomplete:
  assumes "submitted_only e"
    and "bad \<in> set (left_videos e)"
    and "\<forall>k. \<not> succeeded (subprocess_run e k (transform_cmd bad ''left''))"
    and "right_videos e \<noteq> []"
  shows "card (all_video_combinations (world_at e n)) < total_outputs_number e"
proof -
  have l: "card (transformed_left (world_at e n)) < length (left_videos e)"
    using failed_left_card[OF assms(1-3)] .
  have r: "card (transformed_right (world_at e n)) \<le> length (right_videos e)"
    using world_at_right_card[OF assms(1)] .
  have "0 < length (right_videos e)" using assms(4) by simp
  with l have "card (transformed_left (world_at e n)) * length (right_videos e)
      < length (left_videos e) * length (right_videos e)"
    by simp
  moreover have "card (transformed_left (world_at e n)) * card (transformed_right (world_at e n))
      \<le> card (transformed_left (world_at e n)) * length (right_videos e)"
    using r by simp
  ultimately show ?thesis
    unfolding world_at_card total_outputs_number_def by linarith
qed

lemma left_fails_run_incomplete:
  "card (all_video_combinations (world_at left_fails_run n)) < total_outputs_number left_fails_run"
proof (rule failed_left_incomplete[where bad = "''left_dir/video1.mp4''"])
  show "submitted_only left_fails_run" by (rule left_fails_run_submitted_only)
  show "''left_dir/video1.mp4'' \<in> set (left_videos left_fails_run)"
    by (simp add: left_fails_run_def example_run_def)
  show "\<forall>k. \<not> succeeded (subprocess_run left_fails_run k (transform_cmd ''left_dir/video1.mp4'' ''left''))"
    by (simp add: left_fails_run_def succeeded_def ffmpeg_failed_def)
  show "right_videos left_fails_run \<noteq> []"
    by (simp add: left_fails_run_def example_run_def)
qed

lemma world_at_clock_left:
  "transformed_left (world_at (e\<lparr>time_time := t\<rparr>) n) = transformed_left (world_at e n)"
  by (simp add: world_at_left registered_left_def arrivals_def del: world_at.simps)

lemma world_at_clock_right:
  "transformed_right (world_at (e\<lparr>time_time := t\<rparr>) n) = transformed_right (world_at e n)"
  by (simp add: world_at_right registered_right_def arrivals_def del: world_at.simps)

lemma example_run_left:
  "transformed_left (world_at example_run n) = transformed_left (world_at over_budget_run n)"
  by (simp add: over_budget_run_def world_at_clock_left del: world_at.simps)

lemma example_run_right:
  "transformed_right (world_at example_run n) = transformed_right (world_at over_budget_run n)"
  by (simp add: over_budget_run_def world_at_clock_right del: world_at.simps)

lemma example_run_exits: "exits_at example_run 0 (Suc (Suc 0))"
proof -
  have c0: "loop_condition example_run 0 (world_at example_run 0)"
    by (simp add: loop_condition_def init_world_def total_outputs_number_def example_run_def)
  have "card (all_video_combinations (world_at example_run (Suc 0))) = 0"
    unfolding world_at_card example_run_left example_run_right over_budget_left_1 over_budget_right_1
    by simp
  then have c1: "loop_condition example_run (Suc 0) (world_at example_run (Suc 0))"
    by (simp add: loop_condition_def total_outputs_number_def example_run_def del: world_at.simps)
  have "card (all_video_combinations (world_at example_run (Suc (Suc 0)))) = 2"
    unfolding world_at_card example_run_left example_run_right over_budget_left_2 over_budget_right_2
    by (simp add: artifact_left_eq basename_def)
  then have c2: "\<not> loop_condition example_run (Suc (Suc 0)) (world_at example_run (Suc (Suc 0)))"
    by (simp add: loop_condition_def total_outputs_number_def example_run_def MAX_ENC_TIME_def
        del: world_at.simps)
  have "\<And>j. j < Suc (Suc 0) \<Longrightarrow> loop_condition example_run j (world_at example_run j)"
    using c0 c1 less_Suc_eq by (auto simp del: world_at.simps)
  with c2 show ?thesis by (simp add: exits_at_def del: world_at.simps)
qed

subsection \<open>One iteration of the driver\<close>

lemma world_at_Suc_left:
  "transformed_left (world_at e (Suc k)) = transformed_left (transforms_finishing e k (world_at e k))"
  by (simp add: loop_body_left)

lemma world_at_Suc_right:
  "transformed_right (world_at e (Suc k)) = transformed_right (transforms_finishing e k (world_at e k))"
  by (simp add: loop_body_right)

lemma join_batch_events:
  "(l, r) \<in> P \<Longrightarrow> set (fst (join_videos (subprocess_run e k) l r)) \<subseteq> join_batch e k P"
  by (force simp: join_batch_def)

lemma loop_body_join_events:
  assumes "(l, r) \<in> transformed_left w \<times> transformed_right w"
  shows "Pair k ` set (fst (join_videos (subprocess_run e k) l r)) \<subseteq> trace (loop_body e k w)"
  using join_batch_events[OF assms, of e k] unfolding loop_body_trace by blast

subsection \<open>What a single task does\<close>

lemma join_videos_launched: "launched (fst (join_videos run l r)) = [join_cmd l r]"
  by (simp add: join_videos_events split: sum.splits)

lemma join_videos_returns: "snd (join_videos run l r) = None"
  by (simp add: join_videos_def join_videos_try_def Let_def split: sum.splits option.splits prod.splits)

lemma transform_video_launched: "launched (fst (transform_video run vf lk sd)) = [transform_cmd vf sd]"
  by (simp add: transform_video_events split: sum.splits)

lemma transform_video_returns: "snd (transform_video run vf lk sd) = None"
  by (simp add: transform_video_def transform_video_try_def Let_def split: sum.splits option.splits prod.splits)

lemma not_succeeded_cases:
  assumes "\<not> succeeded r"
  obtains x where "r = Inl x"
  | res where "r = Inr res" "returncode res \<noteq> 0"
  using assms by (cases r) (auto simp: succeeded_def)

lemma inserts_locked_transform_video:
  "inserts_locked {} (fst (transform_video run vf lk sd)) \<longleftrightarrow>
     (succeeded (run (transform_cmd vf sd)) \<longrightarrow>
        lk = (if sd = ''left'' then lock_transformed_left else lock_transformed_right))"
  by (auto simp: transform_video_events succeeded_def split: sum.splits)

lemma inserts_locked_run_future: "inserts_locked {} (run_future e k fut)"
  by (cases fut) (simp_all add: inserts_locked_transform_video)

subsection \<open>Each artifact is inserted at most once\<close>

lemma count_list_concat:
  "count_list (concat xss) x = sum_list (map (\<lambda>xs. count_list xs x) xss)"
  by (induction xss) simp_all

lemma count_run_future_left:
  "count_list (run_future e k fut) (AddLeft a)
     \<le> (if \<exists>vf. fut = FutureLeft vf \<and> artifact_left vf = a then 1 else 0)"
  by (cases fut) (auto simp: transform_video_events artifact_left_def split: sum.splits)

lemma count_run_future_right:
  "count_list (run_future e k fut) (AddRight a)
     \<le> (if \<exists>vf. fut = FutureRight vf \<and> artifact_right vf = a then 1 else 0)"
  by (cases fut) (auto simp: transform_video_events artifact_right_def split: sum.splits)

lemma count_futures_left:
  "count_list (concat (map (run_future e k) futs)) (AddLeft a)
     \<le> length (filter (\<lambda>fut. \<exists>vf. fut = FutureLeft vf \<and> artifact_left vf = a) futs)"
proof (induction futs)
  case Nil
  show ?case by simp
next
  case (Cons fut futs)
  show ?case using Cons.IH count_run_future_left[of e k fut a] by (auto split: if_splits)
qed

lemma count_futures_right:
  "count_list (concat (map (run_future e k) futs)) (AddRight a)
     \<le> length (filter (\<lambda>fut. \<exists>vf. fut = FutureRight vf \<and> artifact_right vf = a) futs)"
proof (induction futs)
  case Nil
  show ?case by simp
next
  case (Cons fut futs)
  show ?case using Cons.IH count_run_future_right[of e k fut a] by (auto split: if_splits)
qed

lemma count_schedule:
  assumes "\<And>k xs. count_list (g k xs) x \<le> length (filter P xs)"
  shows "count_list (concat (map (\<lambda>k. g k (xss ! k)) [0..<length xss])) x
           \<le> length (filter P (concat xss))"
proof (induction xss rule: rev_induct)
  case Nil
  show ?case by simp
next
  case (snoc xs xss)
  have m: "map (\<lambda>k. g k ((xss @ [xs]) ! k)) [0..<length xss] = map (\<lambda>k. g k (xss ! k)) [0..<length xss]"
    by (rule map_cong) (simp_all add: nth_append)
  have "count_list (concat (map (\<lambda>k. g k ((xss @ [xs]) ! k)) [0..<length (xss @ [xs])])) x
      = count_list (concat (map (\<lambda>k. g k ((xss @ [xs]) ! k)) [0..<length xss])) x
        + count_list (g (length xss) xs) x"
    by simp
  also have "\<dots> = count_list (concat (map (\<lambda>k. g k (xss ! k)) [0..<length xss])) x
        + count_list (g (length xss) xs) x"
    by (simp only: m)
  also have "\<dots> \<le> length (filter P (concat xss)) + length (filter P xs)"
    using snoc.IH assms[of "length xss" xs] by linarith
  finally show ?case by simp
qed

lemma transform_events_left:
  "count_list (transform_events e) (AddLeft a)
     \<le> length (filter (\<lambda>fut. \<exists>vf. fut = FutureLeft vf \<and> artifact_left vf = a)
                 (concat (finished e)))"
  unfolding transform_events_def
  by (rule count_schedule[where g = "\<lambda>k futs. concat (map (run_future e k) futs)"])
     (rule count_futures_left)

lemma transform_events_right:
  "count_list (transform_events e) (AddRight a)
     \<le> length (filter (\<lambda>fut. \<exists>vf. fut = FutureRight vf \<and> artifact_right vf = a)
                 (concat (finished e)))"
  unfolding transform_events_def
  by (rule count_schedule[where g = "\<lambda>k futs. concat (map (run_future e k) futs)"])
     (rule count_futures_right)

lemma distinct_filter_le_1:
  assumes "distinct xs" and "\<And>x y. x \<in> set xs \<Longrightarrow> y \<in> set xs \<Longrightarrow> P x \<Longrightarrow> P y \<Longrightarrow> x = y"
  shows "length (filter P xs) \<le> 1"
proof -
  have "distinct (filter P xs)" using assms(1) by simp
  then have "length (filter P xs) = card (set (filter P xs))"
    by (rule distinct_card[symmetric])
  also have "\<dots> \<le> 1"
  proof (cases "set (filter P xs) = {}")
    case True
    then show ?thesis by simp
  next
    case False
    then obtain x where x: "x \<in> set xs" "P x" by auto
    have "set (filter P xs) \<subseteq> {x}" using assms(2) x by auto
    then have "card (set (filter P xs)) \<le> card {x}" by (intro card_mono) auto
    then show ?thesis by simp
  qed
  finally show ?thesis .
qed

lemma single_insert_left:
  assumes so: "submitted_only e" and d: "distinct (concat (finished e))"
    and b: "distinct (map basename (left_videos e))"
  shows "count_list (transform_events e) (AddLeft a) \<le> 1"
proof -
  have inj: "inj_on basename (set (left_videos e))" using b by (simp add: distinct_map)
  have "length (filter (\<lambda>fut. \<exists>vf. fut = FutureLeft vf \<and> artifact_left vf = a)
                 (concat (finished e))) \<le> 1"
  proof (rule distinct_filter_le_1[OF d])
    fix x y
    assume x: "x \<in> set (concat (finished e))" and y: "y \<in> set (concat (finished e))"
      and px: "\<exists>vf. x = FutureLeft vf \<and> artifact_left vf = a"
      and py: "\<exists>vf. y = FutureLeft vf \<and> artifact_left vf = a"
    from px obtain u where u: "x = FutureLeft u" "artifact_left u = a" by blast
    from py obtain v where v: "y = FutureLeft v" "artifact_left v = a" by blast
    from x u(1) so have "u \<in> set (left_videos e)"
      by (auto simp: submitted_only_def futures_left_def futures_right_def)
    moreover from y v(1) so have "v \<in> set (left_videos e)"
      by (auto simp: submitted_only_def futures_left_def futures_right_def)
    moreover have "basename u = basename v"
    proof -
      from u(2) v(2) have "artifact_left u = artifact_left v" by simp
      then show ?thesis by (simp add: artifact_left_eq)
    qed
    ultimately have "u = v" using inj by (simp add: inj_on_def)
    with u(1) v(1) show "x = y" by simp
  qed
  with transform_events_left[of e a] show ?thesis by linarith
qed

lemma single_insert_right:
  assumes so: "submitted_only e" and d: "distinct (concat (finished e))"
    and b: "distinct (map basename (right_videos e))"
  shows "count_list (transform_events e) (AddRight a) \<le> 1"
proof -
  have inj: "inj_on basename (set (right_videos e))" using b by (simp add: distinct_map)
  have "length (filter (\<lambda>fut. \<exists>vf. fut = FutureRight vf \<and> artifact_right vf = a)
                 (concat (finished e))) \<le> 1"
  proof (rule distinct_filter_le_1[OF d])
    fix x y
    assume x: "x \<in> set (concat (finished e))" and y: "y \<in> set (concat (finished e))"
      and px: "\<exists>vf. x = FutureRight vf \<and> artifact_right vf = a"
      and py: "\<exists>vf. y = FutureRight vf \<and> artifact_right vf = a"
    from px obtain u where u: "x = FutureRight u" "artifact_right u = a" by blast
    from py obtain v where v: "y = FutureRight v" "artifact_right v = a" by blast
    from x u(1) so have "u \<in> set (right_videos e)"
      by (auto simp: submitted_only_def futures_left_def futures_right_def)
    moreover from y v(1) so have "v \<in> set (right_videos e)"
      by (auto simp: submitted_only_def futures_left_def futures_right_def)
    moreover have "basename u = basename v"
    proof -
      from u(2) v(2) have "artifact_right u = artifact_right v" by simp
      then show ?thesis by (simp add: artifact_right_eq)
    qed
    ultimately have "u = v" using inj by (simp add: inj_on_def)
    with u(1) v(1) show "x = y" by simp
  qed
  with transform_events_right[of e a] show ?thesis by linarith
qed

lemma example_run_submitted_only: "submitted_only example_run"
  by (simp add: submitted_only_def example_run_def futures_left_def futures_right_def)

section \<open>The claims\<close>

text \<open>
  C1. When every transform succeeds, the driver dispatches every one of the \<open>L \<times> R\<close>
  pairs, the produced set reaches size \<open>L \<times> R\<close>, and the loop then terminates.

  Dispatch and the size of the produced set are as claimed
  (\<open>converges_within_budget\<close>), but the loop leaves only if the clock reading at that
  moment is within \<open>MAX_ENC_TIME\<close>: the condition continues the loop when the budget is
  exceeded. On \<open>over_budget_run\<close> every transform succeeds, both pairs are produced by the
  third evaluation of the condition, and the loop never returns.
\<close>

theorem C1_over_budget_never_returns:
  "main over_budget_run = None
   \<and> all_video_combinations (world_at over_budget_run (Suc (Suc 0))) =
       {(''transformed_left_videos/video1.mp4'', ''transformed_right_videos/video1.mp4''),
        (''transformed_left_videos/video2.mp4'', ''transformed_right_videos/video1.mp4'')}
   \<and> card (all_video_combinations (world_at over_budget_run (Suc (Suc 0))))
       = total_outputs_number over_budget_run"
proof -
  have m: "main over_budget_run = None"
    by (rule main_None) (simp add: over_budget_loops)
  have a: "all_video_combinations (world_at over_budget_run (Suc (Suc 0))) =
       {(''transformed_left_videos/video1.mp4'', ''transformed_right_videos/video1.mp4''),
        (''transformed_left_videos/video2.mp4'', ''transformed_right_videos/video1.mp4'')}"
    unfolding world_at_combinations over_budget_left_2 over_budget_right_2
    by (simp add: artifact_left_eq artifact_right_eq basename_def)
  have c: "card (all_video_combinations (world_at over_budget_run (Suc (Suc 0))))
       = total_outputs_number over_budget_run"
    unfolding a by (simp add: total_outputs_number_def over_budget_run_fields)
  from m a c show ?thesis by blast
qed

text \<open>
  C2. The driver keeps iterating exactly while fewer than \<open>total\<close> pairs are produced or
  the time since the start of the loop exceeds \<open>MAX_ENC_TIME\<close>, and nothing else ends
  the loop: \<open>main\<close> returns a world exactly when the condition fails at some evaluation,
  having held at all earlier ones, and the world returned is the one of that evaluation.
  While fewer than \<open>total\<close> pairs are produced the condition holds whatever the clock
  says, so a run that never completes never returns, whatever its clock.
\<close>

theorem C2_loop_condition:
  "(main e = Some w \<longleftrightarrow>
      (\<exists>n. w = world_at e n \<and> \<not> loop_condition e n (world_at e n)
           \<and> (\<forall>j<n. loop_condition e j (world_at e j))))
   \<and> (loop_condition e k w' \<longleftrightarrow>
        card (all_video_combinations w') < total_outputs_number e
        \<or> MAX_ENC_TIME < time_time e k - start_enc_time e)
   \<and> (card (all_video_combinations w') < total_outputs_number e \<longrightarrow>
        loop_condition (e\<lparr>start_enc_time := tstart, time_time := clk\<rparr>) k w')
   \<and> ((\<forall>n. card (all_video_combinations (world_at e n)) < total_outputs_number e) \<longrightarrow>
        main (e\<lparr>start_enc_time := tstart, time_time := clk\<rparr>) = None)"
proof (intro conjI impI)
  show "main e = Some w \<longleftrightarrow>
      (\<exists>n. w = world_at e n \<and> \<not> loop_condition e n (world_at e n)
           \<and> (\<forall>j<n. loop_condition e j (world_at e j)))"
    unfolding main_Some_iff exits_at_def by auto
  show "loop_condition e k w' \<longleftrightarrow>
        card (all_video_combinations w') < total_outputs_number e
        \<or> MAX_ENC_TIME < time_time e k - start_enc_time e"
    by (simp add: loop_condition_def)
  show "loop_condition (e\<lparr>start_enc_time := tstart, time_time := clk\<rparr>) k w'"
    if "card (all_video_combinations w') < total_outputs_number e"
    using that by (simp add: loop_condition_def total_outputs_number_def)
  show "main (e\<lparr>start_enc_time := tstart, time_time := clk\<rparr>) = None"
    if h: "\<forall>n. card (all_video_combinations (world_at e n)) < total_outputs_number e"
  proof (rule main_None, rule allI)
    fix n
    let ?e = "e\<lparr>start_enc_time := tstart, time_time := clk\<rparr>"
    have "transformed_left (world_at ?e n) = transformed_left (world_at e n)"
      by (simp add: world_at_left registered_left_def arrivals_def del: world_at.simps)
    moreover have "transformed_right (world_at ?e n) = transformed_right (world_at e n)"
      by (simp add: world_at_right registered_right_def arrivals_def del: world_at.simps)
    ultimately have "all_video_combinations (world_at ?e n) = all_video_combinations (world_at e n)"
      by (simp add: world_at_combinations del: world_at.simps)
    with h show "loop_condition ?e n (world_at ?e n)"
      by (simp add: loop_condition_def total_outputs_number_def del: world_at.simps)
  qed
qed

theorem C2_loop_condition_witness:
  "main example_run = Some (world_at example_run (Suc (Suc 0)))
   \<and> card (all_video_combinations init_world) < total_outputs_number example_run
   \<and> loop_condition (example_run\<lparr>start_enc_time := 0, time_time := (\<lambda>k. 99999)\<rparr>) 0 init_world
   \<and> main (left_fails_run\<lparr>start_enc_time := 0, time_time := (\<lambda>k. 99999 * real k)\<rparr>) = None"
proof -
  let ?w = "world_at example_run (Suc (Suc 0))"
  have x: "\<exists>n. ?w = world_at example_run n \<and> \<not> loop_condition example_run n (world_at example_run n)
           \<and> (\<forall>j<n. loop_condition example_run j (world_at example_run j))"
    using example_run_exits unfolding exits_at_def by (intro exI[of _ "Suc (Suc 0)"]) blast
  have a: "main example_run = Some ?w"
    using C2_loop_condition[of example_run ?w] x by blast
  have b: "card (all_video_combinations init_world) < total_outputs_number example_run"
    by (simp add: init_world_def total_outputs_number_def example_run_def)
  have c: "loop_condition (example_run\<lparr>start_enc_time := 0, time_time := (\<lambda>k. 99999)\<rparr>) 0 init_world"
    using C2_loop_condition[where e = example_run and k = 0 and w' = init_world
        and tstart = 0 and clk = "\<lambda>k. 99999"] b by blast
  have d: "main (left_fails_run\<lparr>start_enc_time := 0, time_time := (\<lambda>k. 99999 * real k)\<rparr>) = None"
    using C2_loop_condition[where e = left_fails_run and tstart = 0
        and clk = "\<lambda>k. 99999 * real k"]
      left_fails_run_incomplete by blast
  from a b c d show ?thesis by blast
qed

text \<open>
  C3. When the transform of one left input fails and everything else succeeds, no pair
  with that input's artifact is dispatched and the driver loop still terminates after the
  remaining \<open>(L-1) \<times> R\<close> pairs.

  The first half holds (\<open>failed_left_never_dispatched\<close>). The second does not: the loop
  waits for \<open>len(left_videos) * len(right_videos)\<close> combinations, a number that a failed
  transform makes unreachable, and its time limit cannot stop it. On \<open>left_fails_run\<close>
  (two left videos, one right video, \<open>ffmpeg\<close> fails on the first left video) the loop
  never returns.
\<close>

theorem C3_failed_transform_hangs:
  "main left_fails_run = None"
proof (rule failed_left_never_terminates[where bad = "''left_dir/video1.mp4''"])
  show "submitted_only left_fails_run" by (rule left_fails_run_submitted_only)
  show "''left_dir/video1.mp4'' \<in> set (left_videos left_fails_run)"
    by (simp add: left_fails_run_def example_run_def)
  show "\<forall>k. \<not> succeeded (subprocess_run left_fails_run k (transform_cmd ''left_dir/video1.mp4'' ''left''))"
    by (simp add: left_fails_run_def succeeded_def ffmpeg_failed_def)
  show "right_videos left_fails_run \<noteq> []"
    by (simp add: left_fails_run_def example_run_def)
qed

text \<open>
  C4. In every iteration \<open>k\<close> of the driver, the batch submitted to the combine pool is
  the full Cartesian product of the two registries as they are at the snapshot, which is
  taken with both locks acquired. The batch is not reduced by what has been produced:
  every pair produced before the iteration is submitted again. All events of every task
  of the batch have happened when the iteration ends, and only then is the batch added
  to the produced set.
\<close>

theorem C4_full_product_batch:
  "dispatched k (world_at e (Suc k)) =
      transformed_left (transforms_finishing e k (world_at e k))
      \<times> transformed_right (transforms_finishing e k (world_at e k))
   \<and> all_video_combinations (world_at e k) \<subseteq> dispatched k (world_at e (Suc k))
   \<and> (\<forall>vt \<in> dispatched k (world_at e (Suc k)).
        Pair k ` set (fst (join_videos (subprocess_run e k) (fst vt) (snd vt)))
          \<subseteq> trace (world_at e (Suc k)))
   \<and> {(k, Acquire lock_transformed_left), (k, Acquire lock_transformed_right),
       (k, PrintCombinations (dispatched k (world_at e (Suc k)))),
       (k, Release lock_transformed_right), (k, Release lock_transformed_left)}
        \<subseteq> trace (world_at e (Suc k))
   \<and> all_video_combinations (world_at e (Suc k)) =
        all_video_combinations (world_at e k) \<union> dispatched k (world_at e (Suc k))"
proof -
  let ?w = "transforms_finishing e k (world_at e k)"
  let ?P = "transformed_left ?w \<times> transformed_right ?w"
  have d: "dispatched k (world_at e (Suc k)) = ?P"
    unfolding dispatched_world_at world_at_Suc_left world_at_Suc_right by simp
  have "transformed_left (world_at e k) \<subseteq> transformed_left ?w"
    using world_at_left_mono_le[of k "Suc k" e] by (simp add: loop_body_left)
  moreover have "transformed_right (world_at e k) \<subseteq> transformed_right ?w"
    using world_at_right_mono_le[of k "Suc k" e] by (simp add: loop_body_right)
  ultimately have old: "all_video_combinations (world_at e k) \<subseteq> ?P"
    unfolding world_at_combinations by blast
  have ev: "\<forall>vt \<in> ?P. Pair k ` set (fst (join_videos (subprocess_run e k) (fst vt) (snd vt)))
          \<subseteq> trace (world_at e (Suc k))"
  proof
    fix vt assume "vt \<in> ?P"
    then have "(fst vt, snd vt) \<in> ?P" by simp
    from loop_body_join_events[OF this, of k e]
    show "Pair k ` set (fst (join_videos (subprocess_run e k) (fst vt) (snd vt)))
          \<subseteq> trace (world_at e (Suc k))" by simp
  qed
  have lk: "{(k, Acquire lock_transformed_left), (k, Acquire lock_transformed_right),
       (k, PrintCombinations ?P),
       (k, Release lock_transformed_right), (k, Release lock_transformed_left)}
        \<subseteq> trace (world_at e (Suc k))"
    by (simp add: loop_body_trace)
  have u: "all_video_combinations (world_at e (Suc k)) = all_video_combinations (world_at e k) \<union> ?P"
    by (simp add: loop_body_combinations transforms_finishing_combinations
        transforms_finishing_left transforms_finishing_right)
  show ?thesis unfolding d using old ev lk u by blast
qed

theorem C4_full_product_batch_witness:
  "(''transformed_left_videos/video1.mp4'', ''transformed_right_videos/video1.mp4'')
      \<in> all_video_combinations (world_at over_budget_run 2)
   \<and> (''transformed_left_videos/video1.mp4'', ''transformed_right_videos/video1.mp4'')
      \<in> dispatched 2 (world_at over_budget_run 3)
   \<and> (2, Run (join_cmd ''transformed_left_videos/video1.mp4'' ''transformed_right_videos/video1.mp4''))
      \<in> trace (world_at over_budget_run 3)"
proof -
  let ?p = "(''transformed_left_videos/video1.mp4'', ''transformed_right_videos/video1.mp4'')"
  have two: "(2::nat) = Suc (Suc 0)" and three: "(3::nat) = Suc 2" by simp_all
  have a: "?p \<in> all_video_combinations (world_at over_budget_run 2)"
    unfolding two world_at_combinations over_budget_left_2 over_budget_right_2
    by (simp add: artifact_left_eq artifact_right_eq basename_def)
  note inst = C4_full_product_batch[of 2 over_budget_run]
  have b: "?p \<in> dispatched 2 (world_at over_budget_run (Suc 2))"
    by (rule subsetD[OF inst[THEN conjunct2, THEN conjunct1] a])
  have sub: "Pair 2 ` set (fst (join_videos (subprocess_run over_budget_run 2) (fst ?p) (snd ?p)))
          \<subseteq> trace (world_at over_budget_run (Suc 2))"
    by (rule bspec[OF inst[THEN conjunct2, THEN conjunct2, THEN conjunct1] b])
  have r: "Run (join_cmd (fst ?p) (snd ?p))
      \<in> set (fst (join_videos (subprocess_run over_budget_run 2) (fst ?p) (snd ?p)))"
    by (simp add: join_videos_events)
  have c: "(2, Run (join_cmd (fst ?p) (snd ?p))) \<in> trace (world_at over_budget_run (Suc 2))"
    by (rule subsetD[OF sub imageI[OF r]])
  have f: "fst ?p = ''transformed_left_videos/video1.mp4''"
    and g: "snd ?p = ''transformed_right_videos/video1.mp4''" by simp_all
  show ?thesis unfolding three using a b c[unfolded f g] by (intro conjI)
qed

text \<open>
  C5. If at the start of an iteration both registries are fully populated and the
  produced set already holds all \<open>L \<times> R\<close> pairs, no new combine task is dispatched.

  Within the time budget this holds, since the loop leaves (\<open>complete_within_budget_stops\<close>).
  Over budget the condition lets the body run, and the body submits the whole product
  again. On \<open>over_budget_run\<close>, at the third evaluation of the condition (number 2) both
  registries are full and both pairs are produced; the condition holds at evaluations 0,
  1 and 2, and iteration 2 submits both pairs once more.
\<close>

theorem C5_complete_yet_dispatches:
  "transformed_left (world_at over_budget_run 2) = artifact_left ` set (left_videos over_budget_run)
   \<and> transformed_right (world_at over_budget_run 2) = artifact_right ` set (right_videos over_budget_run)
   \<and> card (all_video_combinations (world_at over_budget_run 2)) = total_outputs_number over_budget_run
   \<and> loop_condition over_budget_run 0 (world_at over_budget_run 0)
   \<and> loop_condition over_budget_run 1 (world_at over_budget_run 1)
   \<and> loop_condition over_budget_run 2 (world_at over_budget_run 2)
   \<and> dispatched 2 (world_at over_budget_run 3) =
       {(''transformed_left_videos/video1.mp4'', ''transformed_right_videos/video1.mp4''),
        (''transformed_left_videos/video2.mp4'', ''transformed_right_videos/video1.mp4'')}"
proof -
  have two: "(2::nat) = Suc (Suc 0)" and three: "(3::nat) = Suc (Suc (Suc 0))" by simp_all
  have l: "transformed_left (world_at over_budget_run 2) = artifact_left ` set (left_videos over_budget_run)"
    unfolding two over_budget_left_2 by (simp add: over_budget_run_fields)
  have r: "transformed_right (world_at over_budget_run 2) = artifact_right ` set (right_videos over_budget_run)"
    unfolding two over_budget_right_2 by (simp add: over_budget_run_fields)
  have c: "card (all_video_combinations (world_at over_budget_run 2)) = total_outputs_number over_budget_run"
    unfolding two world_at_combinations over_budget_left_2 over_budget_right_2
    by (simp add: total_outputs_number_def over_budget_run_fields artifact_left_eq basename_def)
  have d: "dispatched 2 (world_at over_budget_run 3) =
       {(''transformed_left_videos/video1.mp4'', ''transformed_right_videos/video1.mp4''),
        (''transformed_left_videos/video2.mp4'', ''transformed_right_videos/video1.mp4'')}"
    unfolding dispatched_world_at two three over_budget_left_2 over_budget_right_2
    by (simp add: artifact_left_eq artifact_right_eq basename_def)
  from l r c d over_budget_loops[of 0] over_budget_loops[of 1] over_budget_loops[of 2]
  show ?thesis by blast
qed

text \<open>
  C6, as stated: the combine output of the left artifact \<open>A.int\<close> and the right artifact
  \<open>X.int\<close> is named \<open>A.int_X.int\<close>. It is not: \<open>join_videos\<close> cuts the last four
  characters off the left base name.
\<close>

theorem C6_output_name_counterexample:
  "join_output_basename ''A.int'' ''X.int'' \<noteq> ''A.int_X.int''"
  by (simp add: join_output_basename_def basename_def drop_last4_def)

text \<open>
  C6, as amended: the combine output file lies in \<open>video_output\<close>, and its name is the
  left artifact's base name without its last four characters, then \<open>_\<close>, then the right
  artifact's base name; it is the last argument of the \<open>ffmpeg\<close> command. For the left
  artifacts \<open>A.int\<close> and \<open>B.int\<close> and the right artifact \<open>X.int\<close> the names are
  \<open>A_X.int\<close> and \<open>B_X.int\<close>.
\<close>

theorem C6_output_name:
  "join_output_file l r =
     ''video_output/'' @ take (length (basename l) - 4) (basename l) @ ''_'' @ basename r
   \<and> last (join_cmd l r) = join_output_file l r
   \<and> join_output_basename ''A.int'' ''X.int'' = ''A_X.int''
   \<and> join_output_basename ''B.int'' ''X.int'' = ''B_X.int''"
  by (simp add: join_output_file_eq join_cmd_def)
     (simp add: join_output_basename_def basename_def drop_last4_def)

text \<open>
  C7. A transform task whose \<open>ffmpeg\<close> process exits with a non-zero status, or cannot be
  launched, prints a line that reports the failure (the \<open>Error\<close> line with the decoded
  error output, or the \<open>Exception\<close> line when the launch or the decoding raised),
  inserts nothing into either registry, and returns normally: no exception leaves
  \<open>transform_video\<close>, and the other tasks that finish in the same period are registered
  as if it had not failed. A task that succeeds inserts its artifact into the registry
  of its side between acquiring and releasing the lock it was given, and the two pools
  give every task the lock of its own side.
\<close>

theorem C7_transform_failure_contained:
  "snd (transform_video run vf lk sd) = None
   \<and> (\<not> succeeded (run (transform_cmd vf sd)) \<longrightarrow>
        AddLeft a \<notin> set (fst (transform_video run vf lk sd))
      \<and> AddRight a \<notin> set (fst (transform_video run vf lk sd))
      \<and> transformed_left (observe k (fst (transform_video run vf lk sd)) w) = transformed_left w
      \<and> transformed_right (observe k (fst (transform_video run vf lk sd)) w) = transformed_right w)
   \<and> (run (transform_cmd vf sd) = Inl x \<longrightarrow>
        last (fst (transform_video run vf lk sd)) =
          Print (''Exception video transformation '' @ vf @ '': '' @ x))
   \<and> (run (transform_cmd vf sd) = Inr res \<and> returncode res \<noteq> 0 \<and> stderr_decode res = Inr err \<longrightarrow>
        last (fst (transform_video run vf lk sd)) =
          Print (''Error video transformation '' @ vf @ '': '' @ err))
   \<and> (run (transform_cmd vf sd) = Inr res \<and> returncode res \<noteq> 0 \<and> stderr_decode res = Inl x \<longrightarrow>
        last (fst (transform_video run vf lk sd)) =
          Print (''Exception video transformation '' @ vf @ '': '' @ x))
   \<and> (succeeded (run (transform_cmd vf sd)) \<longrightarrow>
        (\<exists>pre. fst (transform_video run vf lk sd) =
           pre @ [Acquire lk,
                  (if sd = ''left'' then AddLeft (transform_output_file vf sd)
                   else AddRight (transform_output_file vf sd)),
                  Release lk])
      \<and> transformed_left (observe k (fst (transform_video run vf lk sd)) w) =
          (if sd = ''left'' then insert (transform_output_file vf sd) (transformed_left w)
           else transformed_left w)
      \<and> transformed_right (observe k (fst (transform_video run vf lk sd)) w) =
          (if sd = ''left'' then transformed_right w
           else insert (transform_output_file vf sd) (transformed_right w)))
   \<and> inserts_locked {} (run_future e k fut)
   \<and> transformed_left (transforms_finishing e k w) =
        transformed_left w \<union> registered_left e k (arrivals e k)
   \<and> transformed_right (transforms_finishing e k w) =
        transformed_right w \<union> registered_right e k (arrivals e k)"
proof -
  let ?evs = "fst (transform_video run vf lk sd)"
  let ?out = "transform_output_file vf sd"
  have 1: "snd (transform_video run vf lk sd) = None" by (rule transform_video_returns)
  have 2: "\<not> succeeded (run (transform_cmd vf sd)) \<longrightarrow>
        AddLeft a \<notin> set ?evs \<and> AddRight a \<notin> set ?evs
      \<and> transformed_left (observe k ?evs w) = transformed_left w
      \<and> transformed_right (observe k ?evs w) = transformed_right w"
    by (simp add: observe_left observe_right transform_video_adds_left transform_video_adds_right)
  have 3: "run (transform_cmd vf sd) = Inl x \<longrightarrow>
      last ?evs = Print (''Exception video transformation '' @ vf @ '': '' @ x)"
    by (simp add: transform_video_events)
  have 4: "run (transform_cmd vf sd) = Inr res \<and> returncode res \<noteq> 0 \<and> stderr_decode res = Inr err \<longrightarrow>
      last ?evs = Print (''Error video transformation '' @ vf @ '': '' @ err)"
    by (simp add: transform_video_events)
  have 5: "run (transform_cmd vf sd) = Inr res \<and> returncode res \<noteq> 0 \<and> stderr_decode res = Inl x \<longrightarrow>
      last ?evs = Print (''Exception video transformation '' @ vf @ '': '' @ x)"
    by (simp add: transform_video_events)
  have 6: "succeeded (run (transform_cmd vf sd)) \<longrightarrow>
        (\<exists>pre. ?evs =
           pre @ [Acquire lk, (if sd = ''left'' then AddLeft ?out else AddRight ?out), Release lk])
      \<and> transformed_left (observe k ?evs w) =
          (if sd = ''left'' then insert ?out (transformed_left w) else transformed_left w)
      \<and> transformed_right (observe k ?evs w) =
          (if sd = ''left'' then transformed_right w else insert ?out (transformed_right w))"
  proof (rule impI)
    assume s: "succeeded (run (transform_cmd vf sd))"
    then obtain res where res: "run (transform_cmd vf sd) = Inr res" "returncode res = 0"
      by (cases "run (transform_cmd vf sd)") (auto simp: succeeded_def)
    let ?pre = "[Print (''Starting video transformation '' @ vf), Run (transform_cmd vf sd),
                  Sleep INTER_DEC_TIME, Print (''Finished video transformation '' @ vf)]"
    have "?evs = ?pre @ [Acquire lk, (if sd = ''left'' then AddLeft ?out else AddRight ?out), Release lk]"
      using res by (simp add: transform_video_events)
    then have a: "\<exists>pre. ?evs = pre @ [Acquire lk, (if sd = ''left'' then AddLeft ?out else AddRight ?out), Release lk]"
      by (rule exI[where x = ?pre])
    have b: "transformed_left (observe k ?evs w) =
          (if sd = ''left'' then insert ?out (transformed_left w) else transformed_left w)"
      unfolding observe_left using s by (simp add: transform_video_adds_left)
    have c: "transformed_right (observe k ?evs w) =
          (if sd = ''left'' then transformed_right w else insert ?out (transformed_right w))"
      unfolding observe_right using s by (simp add: transform_video_adds_right)
    from a b c show "(\<exists>pre. ?evs =
           pre @ [Acquire lk, (if sd = ''left'' then AddLeft ?out else AddRight ?out), Release lk])
      \<and> transformed_left (observe k ?evs w) =
          (if sd = ''left'' then insert ?out (transformed_left w) else transformed_left w)
      \<and> transformed_right (observe k ?evs w) =
          (if sd = ''left'' then transformed_right w else insert ?out (transformed_right w))"
      by (intro conjI)
  qed
  note 7 = inserts_locked_run_future[of e k fut]
  note 8 = transforms_finishing_left[of e k w]
  note 9 = transforms_finishing_right[of e k w]
  show ?thesis
    by (rule conjI[OF 1 conjI[OF 2 conjI[OF 3 conjI[OF 4 conjI[OF 5 conjI[OF 6 conjI[OF 7 conjI[OF 8 9]]]]]]]])
qed

theorem C7_transform_failure_contained_witness:
  "last (fst (transform_video (\<lambda>cmd. ffmpeg_failed) ''left_dir/video1.mp4'' lock_transformed_left ''left''))
     = Print ''Error video transformation left_dir/video1.mp4: Invalid data found''
   \<and> transformed_left (observe 0
         (fst (transform_video (\<lambda>cmd. ffmpeg_failed) ''left_dir/video1.mp4'' lock_transformed_left ''left''))
         init_world) = {}
   \<and> transformed_left (observe 0
         (fst (transform_video (\<lambda>cmd. ffmpeg_ok) ''left_dir/video1.mp4'' lock_transformed_left ''left''))
         init_world) = {''transformed_left_videos/video1.mp4''}"
proof -
  let ?vf = "''left_dir/video1.mp4''"
  let ?res = "\<lparr>returncode = 1, stderr_decode = Inr ''Invalid data found''\<rparr>"
  let ?bad = "\<lambda>cmd :: string list. ffmpeg_failed" and ?good = "\<lambda>cmd :: string list. ffmpeg_ok"
  note bad = C7_transform_failure_contained[where run = ?bad and vf = ?vf
      and lk = lock_transformed_left and sd = "''left''" and k = 0 and w = init_world
      and res = ?res and err = "''Invalid data found''"]
  note good = C7_transform_failure_contained[where run = ?good and vf = ?vf
      and lk = lock_transformed_left and sd = "''left''" and k = 0 and w = init_world]
  have f: "\<not> succeeded (?bad (transform_cmd ?vf ''left''))"
    by (simp add: succeeded_def ffmpeg_failed_def)
  have r: "?bad (transform_cmd ?vf ''left'') = Inr ?res \<and> returncode ?res \<noteq> 0
      \<and> stderr_decode ?res = Inr ''Invalid data found''"
    by (simp add: ffmpeg_failed_def)
  have g: "succeeded (?good (transform_cmd ?vf ''left''))"
    by (simp add: succeeded_def ffmpeg_ok_def)
  have a: "last (fst (transform_video ?bad ?vf lock_transformed_left ''left''))
     = Print (''Error video transformation '' @ ?vf @ '': '' @ ''Invalid data found'')"
    by (rule mp[OF bad[THEN conjunct2, THEN conjunct2, THEN conjunct2, THEN conjunct1] r])
  have b: "transformed_left (observe 0 (fst (transform_video ?bad ?vf lock_transformed_left ''left''))
         init_world) = transformed_left init_world"
    by (rule mp[OF bad[THEN conjunct2, THEN conjunct1] f,
          THEN conjunct2, THEN conjunct2, THEN conjunct1])
  have c: "transformed_left (observe 0 (fst (transform_video ?good ?vf lock_transformed_left ''left''))
         init_world) =
        (if ''left'' = ''left'' then insert (transform_output_file ?vf ''left'') (transformed_left init_world)
         else transformed_left init_world)"
    by (rule mp[OF good[THEN conjunct2, THEN conjunct2, THEN conjunct2, THEN conjunct2,
            THEN conjunct2, THEN conjunct1] g, THEN conjunct2, THEN conjunct1])
  have a': "last (fst (transform_video ?bad ?vf lock_transformed_left ''left''))
     = Print ''Error video transformation left_dir/video1.mp4: Invalid data found''"
    using a by simp
  have b': "transformed_left (observe 0 (fst (transform_video ?bad ?vf lock_transformed_left ''left''))
         init_world) = {}"
    using b by (simp add: init_world_def)
  have c': "transformed_left (observe 0 (fst (transform_video ?good ?vf lock_transformed_left ''left''))
         init_world) = {''transformed_left_videos/video1.mp4''}"
    using c by (simp add: init_world_def transform_output_file_left basename_def)
  from a' b' c' show ?thesis by (intro conjI)
qed

text \<open>
  C8. A combine task that fails (non-zero exit status, or an exception from the launch
  or from decoding the error output) prints a line that reports the failure and launches
  \<open>ffmpeg\<close> once only, without a retry; no exception leaves \<open>join_videos\<close>. The driver
  adds the pair to the produced set all the same: the set after the iteration is the set
  before it plus the whole batch, whatever the outcomes of the tasks.
\<close>

theorem C8_failed_join_still_counted:
  assumes "(l, r) \<in> transformed_left w \<times> transformed_right w"
    and "\<not> succeeded (subprocess_run e k (join_cmd l r))"
  shows "(subprocess_run e k (join_cmd l r) = Inl x \<longrightarrow>
           (k, Print (''Exception writing to '' @ join_output_file l r @ '': '' @ x))
             \<in> trace (loop_body e k w))
       \<and> (subprocess_run e k (join_cmd l r) = Inr res \<and> stderr_decode res = Inr err \<longrightarrow>
           (k, Print (''Error writing to '' @ join_output_file l r @ '': '' @ err))
             \<in> trace (loop_body e k w))
       \<and> (subprocess_run e k (join_cmd l r) = Inr res \<and> stderr_decode res = Inl x \<longrightarrow>
           (k, Print (''Exception writing to '' @ join_output_file l r @ '': '' @ x))
             \<in> trace (loop_body e k w))
       \<and> launched (fst (join_videos (subprocess_run e k) l r)) = [join_cmd l r]
       \<and> snd (join_videos (subprocess_run e k) l r) = None
       \<and> (l, r) \<in> all_video_combinations (loop_body e k w)
       \<and> all_video_combinations (loop_body e k w) =
           all_video_combinations w \<union> transformed_left w \<times> transformed_right w"
proof -
  let ?evs = "fst (join_videos (subprocess_run e k) l r)"
  have sub: "Pair k ` set ?evs \<subseteq> trace (loop_body e k w)"
    by (rule loop_body_join_events[OF assms(1)])
  have 1: "(k, Print (''Exception writing to '' @ join_output_file l r @ '': '' @ x))
             \<in> trace (loop_body e k w)" if "subprocess_run e k (join_cmd l r) = Inl x"
  proof -
    have "Print (''Exception writing to '' @ join_output_file l r @ '': '' @ x) \<in> set ?evs"
      using that by (simp add: join_videos_events)
    then show ?thesis using sub by blast
  qed
  have 2: "(k, Print (''Error writing to '' @ join_output_file l r @ '': '' @ err))
             \<in> trace (loop_body e k w)"
    if "subprocess_run e k (join_cmd l r) = Inr res \<and> stderr_decode res = Inr err"
  proof -
    from that assms(2) have "returncode res \<noteq> 0" by (simp add: succeeded_def)
    with that have "Print (''Error writing to '' @ join_output_file l r @ '': '' @ err) \<in> set ?evs"
      by (simp add: join_videos_events)
    then show ?thesis using sub by blast
  qed
  have 3: "(k, Print (''Exception writing to '' @ join_output_file l r @ '': '' @ x))
             \<in> trace (loop_body e k w)"
    if "subprocess_run e k (join_cmd l r) = Inr res \<and> stderr_decode res = Inl x"
  proof -
    from that assms(2) have "returncode res \<noteq> 0" by (simp add: succeeded_def)
    with that have "Print (''Exception writing to '' @ join_output_file l r @ '': '' @ x) \<in> set ?evs"
      by (simp add: join_videos_events)
    then show ?thesis using sub by blast
  qed
  have 6: "(l, r) \<in> all_video_combinations (loop_body e k w)"
    using assms(1) unfolding loop_body_combinations by blast
  show ?thesis
    using 1 2 3 6 join_videos_launched join_videos_returns loop_body_combinations
    by (intro conjI impI) auto
qed

theorem C8_failed_join_still_counted_witness:
  "(0, Print ''Error writing to video_output/video1_video1.mp4: Invalid data found'')
      \<in> trace (loop_body all_fail_run 0
           (init_world\<lparr>transformed_left := {''transformed_left_videos/video1.mp4''},
                       transformed_right := {''transformed_right_videos/video1.mp4''}\<rparr>))
   \<and> (''transformed_left_videos/video1.mp4'', ''transformed_right_videos/video1.mp4'')
      \<in> all_video_combinations (loop_body all_fail_run 0
           (init_world\<lparr>transformed_left := {''transformed_left_videos/video1.mp4''},
                       transformed_right := {''transformed_right_videos/video1.mp4''}\<rparr>))"
proof -
  let ?l = "''transformed_left_videos/video1.mp4''" and ?r = "''transformed_right_videos/video1.mp4''"
  let ?w = "init_world\<lparr>transformed_left := {?l}, transformed_right := {?r}\<rparr>"
  let ?res = "\<lparr>returncode = 1, stderr_decode = Inr ''Invalid data found''\<rparr>"
  have h1: "(?l, ?r) \<in> transformed_left ?w \<times> transformed_right ?w" by simp
  have run: "subprocess_run all_fail_run 0 (join_cmd ?l ?r) = Inr ?res"
    by (simp add: all_fail_run_def ffmpeg_failed_def)
  have h2: "\<not> succeeded (subprocess_run all_fail_run 0 (join_cmd ?l ?r))"
    unfolding run by (simp add: succeeded_def)
  note inst = C8_failed_join_still_counted[OF h1 h2, where res = ?res and err = "''Invalid data found''"]
  have d: "stderr_decode ?res = Inr ''Invalid data found''" by simp
  have a: "(0, Print (''Error writing to '' @ join_output_file ?l ?r @ '': '' @ ''Invalid data found''))
      \<in> trace (loop_body all_fail_run 0 ?w)"
    by (rule mp[OF inst[THEN conjunct2, THEN conjunct1] conjI[OF run d]])
  have n: "join_output_file ?l ?r = ''video_output/video1_video1.mp4''"
    by (simp add: join_output_file_eq basename_def drop_last4_def)
  have b: "(?l, ?r) \<in> all_video_combinations (loop_body all_fail_run 0 ?w)"
    by (rule inst[THEN conjunct2, THEN conjunct2, THEN conjunct2, THEN conjunct2,
          THEN conjunct2, THEN conjunct1])
  from a[unfolded n] have a': "(0, Print ''Error writing to video_output/video1_video1.mp4: Invalid data found'')
      \<in> trace (loop_body all_fail_run 0 ?w)" by simp
  from a' b show ?thesis by (intro conjI)
qed

text \<open>
  C9. On each side the registry only grows: no event removes from it, the driver does not
  touch it, and what it holds at one evaluation of the loop condition it holds at every
  later one. The artifact of an input is a function of the input's name (the output
  directory of the side, then the base name), every member of a registry is the artifact
  of a submitted input, and a registry never has more members than there are inputs.
  When every future completes at most once and the inputs of a side have distinct base
  names, as the files of one directory have, the transform tasks of the whole run insert
  any given artifact at most once.
\<close>

theorem C9_registry_grows_single_insert:
  "transformed_left (world_at e n) \<subseteq> transformed_left (world_at e (n + m))
   \<and> transformed_right (world_at e n) \<subseteq> transformed_right (world_at e (n + m))
   \<and> transformed_left w \<subseteq> transformed_left (observe k evs w)
   \<and> transformed_right w \<subseteq> transformed_right (observe k evs w)
   \<and> transformed_left (loop_body e k w) = transformed_left w
   \<and> transformed_right (loop_body e k w) = transformed_right w
   \<and> artifact_left vf = ''transformed_left_videos/'' @ basename vf
   \<and> artifact_right vf = ''transformed_right_videos/'' @ basename vf
   \<and> (submitted_only e \<longrightarrow>
        transformed_left (world_at e n) \<subseteq> artifact_left ` set (left_videos e)
      \<and> transformed_right (world_at e n) \<subseteq> artifact_right ` set (right_videos e)
      \<and> card (transformed_left (world_at e n)) \<le> length (left_videos e)
      \<and> card (transformed_right (world_at e n)) \<le> length (right_videos e))
   \<and> (submitted_only e \<and> distinct (concat (finished e))
        \<and> distinct (map basename (left_videos e)) \<longrightarrow>
        count_list (transform_events e) (AddLeft a) \<le> 1)
   \<and> (submitted_only e \<and> distinct (concat (finished e))
        \<and> distinct (map basename (right_videos e)) \<longrightarrow>
        count_list (transform_events e) (AddRight a) \<le> 1)"
proof -
  have 1: "transformed_left (world_at e n) \<subseteq> transformed_left (world_at e (n + m))"
    by (rule world_at_left_mono)
  have 2: "transformed_right (world_at e n) \<subseteq> transformed_right (world_at e (n + m))"
    by (rule world_at_right_mono)
  have 3: "transformed_left w \<subseteq> transformed_left (observe k evs w)"
    unfolding observe_left by blast
  have 4: "transformed_right w \<subseteq> transformed_right (observe k evs w)"
    unfolding observe_right by blast
  note 5 = loop_body_left[of e k w]
  note 6 = loop_body_right[of e k w]
  note 7 = artifact_left_eq[of vf]
  note 8 = artifact_right_eq[of vf]
  have 9: "submitted_only e \<longrightarrow>
        transformed_left (world_at e n) \<subseteq> artifact_left ` set (left_videos e)
      \<and> transformed_right (world_at e n) \<subseteq> artifact_right ` set (right_videos e)
      \<and> card (transformed_left (world_at e n)) \<le> length (left_videos e)
      \<and> card (transformed_right (world_at e n)) \<le> length (right_videos e)"
    using world_at_left_subset world_at_right_subset world_at_left_card world_at_right_card
    by blast
  have 10: "submitted_only e \<and> distinct (concat (finished e))
        \<and> distinct (map basename (left_videos e)) \<longrightarrow>
        count_list (transform_events e) (AddLeft a) \<le> 1"
    using single_insert_left by blast
  have 11: "submitted_only e \<and> distinct (concat (finished e))
        \<and> distinct (map basename (right_videos e)) \<longrightarrow>
        count_list (transform_events e) (AddRight a) \<le> 1"
    using single_insert_right by blast
  show ?thesis
    by (rule conjI[OF 1 conjI[OF 2 conjI[OF 3 conjI[OF 4 conjI[OF 5 conjI[OF 6
          conjI[OF 7 conjI[OF 8 conjI[OF 9 conjI[OF 10 11]]]]]]]]]])
qed

theorem C9_registry_grows_single_insert_witness:
  "submitted_only example_run
   \<and> distinct (concat (finished example_run))
   \<and> distinct (map basename (left_videos example_run))
   \<and> card (transformed_left (world_at example_run 2)) \<le> 2
   \<and> count_list (transform_events example_run) (AddLeft ''transformed_left_videos/video1.mp4'') \<le> 1"
proof -
  note inst = C9_registry_grows_single_insert[where e = example_run and n = 2
      and a = "''transformed_left_videos/video1.mp4''"]
  have h1: "submitted_only example_run" by (rule example_run_submitted_only)
  have h2: "distinct (concat (finished example_run))"
    by (simp add: example_run_def)
  have h3: "distinct (map basename (left_videos example_run))"
    by (simp add: example_run_def basename_def)
  have len: "length (left_videos example_run) = 2" by (simp add: example_run_def)
  have a: "card (transformed_left (world_at example_run 2)) \<le> length (left_videos example_run)"
    by (rule mp[OF inst[THEN conjunct2, THEN conjunct2, THEN conjunct2, THEN conjunct2,
          THEN conjunct2, THEN conjunct2, THEN conjunct2, THEN conjunct2, THEN conjunct1] h1,
          THEN conjunct2, THEN conjunct2, THEN conjunct1])
  have b: "count_list (transform_events example_run) (AddLeft ''transformed_left_videos/video1.mp4'') \<le> 1"
    by (rule mp[OF inst[THEN conjunct2, THEN conjunct2, THEN conjunct2, THEN conjunct2,
          THEN conjunct2, THEN conjunct2, THEN conjunct2, THEN conjunct2, THEN conjunct2,
          THEN conjunct1] conjI[OF h1 conjI[OF h2 h3]]])
  from h1 h2 h3 a[unfolded len] b show ?thesis by (intro conjI)
qed

text \<open>
  C10. If either input collection is empty and the time budget is not exceeded at the
  first evaluation of the loop condition, then the expected total is 0, the condition is
  false at once, the loop body never runs, the driver returns immediately, and no
  combine task has been dispatched.
\<close>

theorem C10_empty_input:
  assumes "left_videos e = [] \<or> right_videos e = []"
    and "time_time e 0 - start_enc_time e \<le> MAX_ENC_TIME"
  shows "total_outputs_number e = 0
       \<and> \<not> loop_condition e 0 init_world
       \<and> exits_at e 0 0
       \<and> main e = Some init_world
       \<and> dispatched k init_world = {}"
proof -
  have t: "total_outputs_number e = 0"
    using assms(1) by (auto simp: total_outputs_number_def)
  have c: "\<not> loop_condition e 0 init_world"
    using assms(2) t by (simp add: loop_condition_def init_world_def)
  then have x: "exits_at e 0 0" by (simp add: exits_at_def)
  then have "main e = Some init_world"
    using main_Some_iff[of e init_world] by (metis world_at.simps(1))
  moreover have "dispatched k init_world = {}"
    by (simp add: dispatched_def init_world_def)
  ultimately show ?thesis using t c x by simp
qed

theorem C10_empty_input_witness:
  "(left_videos empty_left_run = [] \<or> right_videos empty_left_run = [])
   \<and> time_time empty_left_run 0 - start_enc_time empty_left_run \<le> MAX_ENC_TIME
   \<and> total_outputs_number empty_left_run = 0
   \<and> main empty_left_run = Some init_world
   \<and> dispatched 0 init_world = {}"
proof -
  have h1: "left_videos empty_left_run = [] \<or> right_videos empty_left_run = []"
    by (simp add: empty_left_run_def)
  have h2: "time_time empty_left_run 0 - start_enc_time empty_left_run \<le> MAX_ENC_TIME"
    by (simp add: empty_left_run_def example_run_def MAX_ENC_TIME_def)
  show ?thesis using C10_empty_input[OF h1 h2, of 0] h1 h2 by simp
qed

end
